theory Spec2Isabelle
  imports Complex_Main "HOL-Library.AList" "HOL-Library.Multiset" "HOL-Library.Product_Lexorder"
begin

section \<open>JavaScript numbers\<close>

text \<open>
  A JavaScript \<^verbatim>\<open>number\<close> is an IEEE 754 binary64 value: a finite double, \<^verbatim>\<open>NaN\<close>,
  \<^verbatim>\<open>Infinity\<close> or \<^verbatim>\<open>-Infinity\<close>. A finite double is modelled by the real number it
  denotes; every arithmetic result is rounded to the nearest double, ties to even, with
  gradual underflow and overflow to the infinities. The two zeros are identified: they
  compare equal, and the code below never divides by zero. The type has more finite
  values than there are doubles; what is proved for all of them holds for the doubles,
  and the concrete inputs below are doubles.
\<close>

datatype jsnum = Num real | NaN | PosInf | NegInf

definition pow2 :: "int \<Rightarrow> real" where
  "pow2 k = (if 0 \<le> k then 2 ^ nat k else 1 / 2 ^ nat (- k))"

text \<open>The binary exponent of a positive real: \<open>2 ^ e \<le> x < 2 ^ (e + 1)\<close>.\<close>

function floor_log2 :: "real \<Rightarrow> int" where
  "floor_log2 x =
     (if x \<le> 0 then 0
      else if 2 \<le> x then floor_log2 (x / 2) + 1
      else if x < 1 then floor_log2 (x * 2) - 1
      else 0)"
  by pat_completeness auto
termination
proof (relation "measure (\<lambda>x. if 1 \<le> x then nat \<lfloor>x\<rfloor> else nat \<lceil>1 / x\<rceil> + 1)")
  show "wf (measure (\<lambda>x::real. if 1 \<le> x then nat \<lfloor>x\<rfloor> else nat \<lceil>1 / x\<rceil> + 1))"
    by simp
next
  fix x :: real
  assume "\<not> x \<le> 0" "2 \<le> x"
  then have "\<lfloor>x / 2\<rfloor> < \<lfloor>x\<rfloor>" by linarith
  with \<open>2 \<le> x\<close>
  show "(x / 2, x) \<in> measure (\<lambda>x. if 1 \<le> x then nat \<lfloor>x\<rfloor> else nat \<lceil>1 / x\<rceil> + 1)"
    by simp
next
  fix x :: real
  assume a: "\<not> x \<le> 0" "\<not> 2 \<le> x" "x < 1"
  show "(x * 2, x) \<in> measure (\<lambda>x. if 1 \<le> x then nat \<lfloor>x\<rfloor> else nat \<lceil>1 / x\<rceil> + 1)"
  proof (cases "1 \<le> x * 2")
    case True
    from a True have "\<lfloor>x * 2\<rfloor> = 1" by linarith
    moreover from a have "1 < 1 / x" by simp
    then have "2 \<le> \<lceil>1 / x\<rceil>" by linarith
    ultimately show ?thesis using a True by simp
  next
    case False
    define y where "y = 1 / x"
    from a False have "2 < y" unfolding y_def by (simp add: field_simps)
    have "of_int \<lceil>y / 2\<rceil> < y / 2 + 1" by linarith
    also have "\<dots> < y" using \<open>2 < y\<close> by simp
    also have "\<dots> \<le> of_int \<lceil>y\<rceil>" by (rule le_of_int_ceiling)
    finally have "\<lceil>y / 2\<rceil> < \<lceil>y\<rceil>" by simp
    then have "\<lceil>1 / (x * 2)\<rceil> < \<lceil>1 / x\<rceil>" unfolding y_def by (simp add: field_simps)
    moreover from a have "0 < 1 / x" by simp
    ultimately show ?thesis using a False by simp
  qed
qed

declare floor_log2.simps [simp del]

definition round_half_even :: "real \<Rightarrow> int" where
  "round_half_even y =
     (if y - of_int \<lfloor>y\<rfloor> < 1 / 2 then \<lfloor>y\<rfloor>
      else if 1 / 2 < y - of_int \<lfloor>y\<rfloor> then \<lfloor>y\<rfloor> + 1
      else if even \<lfloor>y\<rfloor> then \<lfloor>y\<rfloor> else \<lfloor>y\<rfloor> + 1)"

text \<open>
  The spacing of the doubles around \<open>x\<close> is \<open>2 ^ quantum_exp x\<close>: 53 significant bits for a
  normal number, and the fixed spacing \<open>2 ^ - 1074\<close> below \<open>2 ^ - 1022\<close>.
\<close>

definition quantum_exp :: "real \<Rightarrow> int" where
  "quantum_exp x = max (floor_log2 \<bar>x\<bar>) (- 1022) - 52"

definition round_to :: "int \<Rightarrow> real \<Rightarrow> real" where
  "round_to q x = of_int (round_half_even (x / pow2 q)) * pow2 q"

definition overflow :: "real \<Rightarrow> jsnum" where
  "overflow r =
     (if 2 ^ 1024 \<le> r then PosInf else if r \<le> - (2 ^ 1024) then NegInf else Num r)"

definition fl :: "real \<Rightarrow> jsnum" where
  "fl x = overflow (round_to (quantum_exp x) x)"

text \<open>A real number is a double when rounding leaves it alone.\<close>

definition is_double :: "real \<Rightarrow> bool" where
  "is_double x = (fl x = Num x)"

fun js_neg :: "jsnum \<Rightarrow> jsnum" where
  "js_neg (Num a) = Num (- a)"
| "js_neg NaN = NaN"
| "js_neg PosInf = NegInf"
| "js_neg NegInf = PosInf"

fun js_add :: "jsnum \<Rightarrow> jsnum \<Rightarrow> jsnum" where
  "js_add (Num a) (Num b) = fl (a + b)"
| "js_add NaN _ = NaN"
| "js_add _ NaN = NaN"
| "js_add PosInf NegInf = NaN"
| "js_add NegInf PosInf = NaN"
| "js_add PosInf _ = PosInf"
| "js_add _ PosInf = PosInf"
| "js_add NegInf _ = NegInf"
| "js_add _ NegInf = NegInf"

definition js_sub :: "jsnum \<Rightarrow> jsnum \<Rightarrow> jsnum" where
  "js_sub a b = js_add a (js_neg b)"

fun js_mul :: "jsnum \<Rightarrow> jsnum \<Rightarrow> jsnum" where
  "js_mul (Num a) (Num b) = fl (a * b)"
| "js_mul NaN _ = NaN"
| "js_mul _ NaN = NaN"
| "js_mul (Num a) PosInf = (if a = 0 then NaN else if 0 < a then PosInf else NegInf)"
| "js_mul (Num a) NegInf = (if a = 0 then NaN else if 0 < a then NegInf else PosInf)"
| "js_mul PosInf (Num b) = (if b = 0 then NaN else if 0 < b then PosInf else NegInf)"
| "js_mul NegInf (Num b) = (if b = 0 then NaN else if 0 < b then NegInf else PosInf)"
| "js_mul PosInf PosInf = PosInf"
| "js_mul PosInf NegInf = NegInf"
| "js_mul NegInf PosInf = NegInf"
| "js_mul NegInf NegInf = PosInf"

fun js_div :: "jsnum \<Rightarrow> jsnum \<Rightarrow> jsnum" where
  "js_div (Num a) (Num b) =
     (if b = 0 then (if a = 0 then NaN else if 0 < a then PosInf else NegInf)
      else fl (a / b))"
| "js_div NaN _ = NaN"
| "js_div _ NaN = NaN"
| "js_div (Num a) _ = Num 0"
| "js_div PosInf (Num b) = (if 0 \<le> b then PosInf else NegInf)"
| "js_div NegInf (Num b) = (if 0 \<le> b then NegInf else PosInf)"
| "js_div _ _ = NaN"

text \<open>\<^verbatim>\<open>Math.floor\<close>: the floor of a double is a double, so nothing is rounded.\<close>

fun js_floor :: "jsnum \<Rightarrow> jsnum" where
  "js_floor (Num a) = Num (of_int \<lfloor>a\<rfloor>)"
| "js_floor n = n"

text \<open>The comparisons \<^verbatim>\<open><\<close>, \<^verbatim>\<open>>\<close> and \<^verbatim>\<open><=\<close>: every comparison with \<^verbatim>\<open>NaN\<close> is false.\<close>

fun js_lt :: "jsnum \<Rightarrow> jsnum \<Rightarrow> bool" where
  "js_lt (Num a) (Num b) = (a < b)"
| "js_lt NaN _ = False"
| "js_lt _ NaN = False"
| "js_lt _ NegInf = False"
| "js_lt PosInf _ = False"
| "js_lt _ _ = True"

definition js_gt :: "jsnum \<Rightarrow> jsnum \<Rightarrow> bool" where
  "js_gt a b = js_lt b a"

definition js_le :: "jsnum \<Rightarrow> jsnum \<Rightarrow> bool" where
  "js_le a b = (a \<noteq> NaN \<and> b \<noteq> NaN \<and> \<not> js_lt b a)"

text \<open>\<^verbatim>\<open>Number.isFinite\<close>, \<^verbatim>\<open>isNaN\<close> and \<^verbatim>\<open>Number.isInteger\<close> on a number.\<close>

fun isFinite :: "jsnum \<Rightarrow> bool" where
  "isFinite (Num a) = True"
| "isFinite _ = False"

definition isNaN :: "jsnum \<Rightarrow> bool" where
  "isNaN n = (n = NaN)"

fun isInteger :: "jsnum \<Rightarrow> bool" where
  "isInteger (Num a) = (of_int \<lfloor>a\<rfloor> = a)"
| "isInteger _ = False"

section \<open>JavaScript values\<close>

text \<open>
  A \<^verbatim>\<open>Date\<close> holds a time value in milliseconds, or is an invalid date whose
  \<^verbatim>\<open>getTime()\<close> is \<^verbatim>\<open>NaN\<close>.
\<close>

datatype jsdate = DateAt int | InvalidDate

fun getTime :: "jsdate \<Rightarrow> jsnum" where
  "getTime (DateAt t) = Num (of_int t)"
| "getTime InvalidDate = NaN"

text \<open>
  The validators take \<^verbatim>\<open>unknown\<close>: any value at all. An object is its list of own
  enumerable properties in the order in which \<^verbatim>\<open>Object.entries\<close>, \<^verbatim>\<open>Object.values\<close> and
  the spread syntax go through them: the keys that are array indices first, in ascending
  order, then the other keys in the order in which they were added. A function is opaque.
  Strings are lists of 8-bit characters, read as the code points below 256.
\<close>

datatype jsval =
    JUndefined
  | JNull
  | JBoolean bool
  | JNumber jsnum
  | JString string
  | JDate jsdate
  | JArray "jsval list"
  | JObject "(string \<times> jsval) list"
  | JFunction

fun typeof :: "jsval \<Rightarrow> string" where
  "typeof JUndefined = ''undefined''"
| "typeof JNull = ''object''"
| "typeof (JBoolean b) = ''boolean''"
| "typeof (JNumber n) = ''number''"
| "typeof (JString s) = ''string''"
| "typeof (JDate d) = ''object''"
| "typeof (JArray xs) = ''object''"
| "typeof (JObject ps) = ''object''"
| "typeof JFunction = ''function''"

fun truthy :: "jsval \<Rightarrow> bool" where
  "truthy JUndefined = False"
| "truthy JNull = False"
| "truthy (JBoolean b) = b"
| "truthy (JNumber n) = (n \<noteq> NaN \<and> n \<noteq> Num 0)"
| "truthy (JString s) = (s \<noteq> [])"
| "truthy _ = True"

fun isArray :: "jsval \<Rightarrow> bool" where
  "isArray (JArray xs) = True"
| "isArray _ = False"

text \<open>
  Reading a named property. The names read below are never index or built-in properties,
  so only a plain object can have them; the callers never read from \<^verbatim>\<open>null\<close> or
  \<^verbatim>\<open>undefined\<close> without testing first.
\<close>

fun get_prop :: "jsval \<Rightarrow> string \<Rightarrow> jsval" where
  "get_prop (JObject ps) k = (case map_of ps k of None \<Rightarrow> JUndefined | Some v \<Rightarrow> v)"
| "get_prop _ k = JUndefined"

text \<open>Decimal digits of a natural number, as \<^verbatim>\<open>String(n)\<close> prints an integer.\<close>

fun show_nat :: "nat \<Rightarrow> string" where
  "show_nat n =
     (if n < 10 then [''0123456789'' ! n]
      else show_nat (n div 10) @ [''0123456789'' ! (n mod 10)])"

declare show_nat.simps [simp del]

text \<open>
  \<^verbatim>\<open>Object.entries\<close>: the own enumerable string-keyed properties. An array has its
  indices, a string its characters, a date and the primitives none.
\<close>

fun own_entries :: "jsval \<Rightarrow> (string \<times> jsval) list" where
  "own_entries (JObject ps) = ps"
| "own_entries (JArray xs) = zip (map show_nat [0..<length xs]) xs"
| "own_entries (JString s) = zip (map show_nat [0..<length s]) (map (\<lambda>c. JString [c]) s)"
| "own_entries _ = []"

text \<open>\<^verbatim>\<open>String.prototype.trim\<close> strips white space from both ends.\<close>

definition is_space :: "char \<Rightarrow> bool" where
  "is_space c = (c \<in> set [CHR 0x09, CHR 0x0A, CHR 0x0B, CHR 0x0C, CHR 0x0D, CHR 0x20, CHR 0xA0])"

definition trim :: "string \<Rightarrow> string" where
  "trim s = rev (dropWhile is_space (rev (dropWhile is_space s)))"

text \<open>\<^verbatim>\<open>Array.prototype.join\<close> on strings.\<close>

fun join :: "string \<Rightarrow> string list \<Rightarrow> string" where
  "join sep [] = []"
| "join sep [x] = x"
| "join sep (x # y # ys) = x @ sep @ join sep (y # ys)"

section \<open>The data types of \<^verbatim>\<open>types/index.ts\<close>\<close>

text \<open>
  The interfaces as records. A \<^verbatim>\<open>Record<string, number>\<close> is the list of its entries, in the
  order in which \<^verbatim>\<open>Object.entries\<close> lists them.
\<close>

record FileItem =
  id_file :: string
  name :: string
  size_file :: jsnum
  type :: string
  lastModified :: jsdate
  path :: string

record StorageData =
  totalStorage :: jsnum
  usedStorage :: jsnum
  files :: "FileItem list"
  storageByType :: "(string \<times> jsnum) list"
  lastUpdated :: jsdate

text \<open>A typed value seen as a plain value, as it is once the types are erased.\<close>

definition js_of_FileItem :: "FileItem \<Rightarrow> jsval" where
  "js_of_FileItem f =
     JObject [(''id'', JString (id_file f)), (''name'', JString (name f)),
              (''size'', JNumber (size_file f)), (''type'', JString (type f)),
              (''lastModified'', JDate (lastModified f)), (''path'', JString (path f))]"

definition js_of_StorageData :: "StorageData \<Rightarrow> jsval" where
  "js_of_StorageData d =
     JObject [(''totalStorage'', JNumber (totalStorage d)),
              (''usedStorage'', JNumber (usedStorage d)),
              (''files'', JArray (map js_of_FileItem (files d))),
              (''storageByType'', JObject (map (\<lambda>(k, v). (k, JNumber v)) (storageByType d))),
              (''lastUpdated'', JDate (lastUpdated d))]"

text \<open>
  The casts of the validators (\<^verbatim>\<open>file as FileItem\<close>, \<^verbatim>\<open>storage.totalStorage!\<close>): they are
  applied only to values that passed the checks, where the first case is the one taken.
\<close>

fun as_number :: "jsval \<Rightarrow> jsnum" where
  "as_number (JNumber n) = n"
| "as_number _ = NaN"

fun as_string :: "jsval \<Rightarrow> string" where
  "as_string (JString s) = s"
| "as_string _ = []"

fun as_date :: "jsval \<Rightarrow> jsdate" where
  "as_date (JDate d) = d"
| "as_date _ = InvalidDate"

fun as_array :: "jsval \<Rightarrow> jsval list" where
  "as_array (JArray xs) = xs"
| "as_array _ = []"

definition as_FileItem :: "jsval \<Rightarrow> FileItem" where
  "as_FileItem v =
     \<lparr>id_file = as_string (get_prop v ''id''), name = as_string (get_prop v ''name''),
      size_file = as_number (get_prop v ''size''), type = as_string (get_prop v ''type''),
      lastModified = as_date (get_prop v ''lastModified''),
      path = as_string (get_prop v ''path'')\<rparr>"

section \<open>Validation (\<^verbatim>\<open>utils/validation.ts\<close>)\<close>

text \<open>
  The three tests the validators repeat, written as the source writes them, as the
  condition under which the value is refused:
  \<^verbatim>\<open>typeof v !== 'string' || v.trim() === ''\<close>,
  \<^verbatim>\<open>typeof v !== 'number' || v < 0 || !Number.isFinite(v)\<close> and
  \<^verbatim>\<open>!(v instanceof Date) || isNaN(v.getTime())\<close>.
\<close>

fun blank_string :: "jsval \<Rightarrow> bool" where
  "blank_string (JString s) = (trim s = [])"
| "blank_string _ = True"

fun bad_size :: "jsval \<Rightarrow> bool" where
  "bad_size (JNumber n) = (js_lt n (Num 0) \<or> \<not> isFinite n)"
| "bad_size _ = True"

fun bad_date :: "jsval \<Rightarrow> bool" where
  "bad_date (JDate d) = isNaN (getTime d)"
| "bad_date _ = True"

definition validateFileItem :: "jsval \<Rightarrow> bool" where
  "validateFileItem item =
     (if \<not> truthy item \<or> typeof item \<noteq> ''object'' then False
      else if blank_string (get_prop item ''id'') then False
      else if blank_string (get_prop item ''name'') then False
      else if bad_size (get_prop item ''size'') then False
      else if blank_string (get_prop item ''type'') then False
      else if bad_date (get_prop item ''lastModified'') then False
      else if blank_string (get_prop item ''path'') then False
      else True)"

record ValidationResult =
  isValid :: bool
  data :: "StorageData option"
  errors :: "string list"

text \<open>\<^verbatim>\<open>typeof v !== 'number' || v <= 0 || !Number.isFinite(v)\<close>, the test of the capacity.\<close>

fun bad_total :: "jsval \<Rightarrow> bool" where
  "bad_total (JNumber n) = (js_le n (Num 0) \<or> \<not> isFinite n)"
| "bad_total _ = True"

text \<open>Both are numbers and the used space is greater than the capacity.\<close>

fun used_exceeds_total :: "jsval \<Rightarrow> jsval \<Rightarrow> bool" where
  "used_exceeds_total (JNumber t) (JNumber u) = js_gt u t"
| "used_exceeds_total _ _ = False"

definition value_message :: "string \<Rightarrow> string" where
  "value_message k =
     ''storageByType['' @ [CHR 0x27] @ k @ [CHR 0x27] @ ''] must be a non-negative number''"

text \<open>The loop over the entries of \<^verbatim>\<open>storageByType\<close>: one message for each refused value.\<close>

fun value_errors :: "(string \<times> jsval) list \<Rightarrow> string list" where
  "value_errors [] = []"
| "value_errors ((k, v) # ps) =
     (if bad_size v then value_message k # value_errors ps else value_errors ps)"

text \<open>The \<^verbatim>\<open>reduce\<close> of the validator: a value that is not a number counts as 0.\<close>

definition storageByTypeSum :: "jsval list \<Rightarrow> jsnum" where
  "storageByTypeSum vs =
     foldl (\<lambda>sum val. js_add sum (if typeof val = ''number'' then as_number val else Num 0))
       (Num 0) vs"

fun sum_exceeds_used :: "jsval \<Rightarrow> jsnum \<Rightarrow> bool" where
  "sum_exceeds_used (JNumber u) s = js_gt s u"
| "sum_exceeds_used _ s = False"

definition filtered_message :: "nat \<Rightarrow> string" where
  "filtered_message n = ''Filtered out '' @ show_nat n @ '' invalid file item(s)''"

text \<open>The messages of the checks made before the early return, in the order of the source.\<close>

definition hard_errors :: "jsval \<Rightarrow> string list" where
  "hard_errors storage =
     (if bad_total (get_prop storage ''totalStorage'')
      then [''totalStorage must be a positive number''] else [])
     @ (if bad_size (get_prop storage ''usedStorage'')
        then [''usedStorage must be a non-negative number''] else [])
     @ (if used_exceeds_total (get_prop storage ''totalStorage'') (get_prop storage ''usedStorage'')
        then [''usedStorage cannot exceed totalStorage''] else [])
     @ (if \<not> isArray (get_prop storage ''files'')
        then [''files must be an array''] else [])
     @ (if \<not> truthy (get_prop storage ''storageByType'')
           \<or> typeof (get_prop storage ''storageByType'') \<noteq> ''object''
           \<or> isArray (get_prop storage ''storageByType'')
        then [''storageByType must be an object''] else [])
     @ (if truthy (get_prop storage ''storageByType'')
           \<and> typeof (get_prop storage ''storageByType'') = ''object''
        then value_errors (own_entries (get_prop storage ''storageByType''))
             @ (if sum_exceeds_used (get_prop storage ''usedStorage'')
                     (storageByTypeSum (map snd (own_entries (get_prop storage ''storageByType''))))
                then [''Sum of storageByType cannot exceed usedStorage''] else [])
        else [])
     @ (if bad_date (get_prop storage ''lastUpdated'')
        then [''lastUpdated must be a valid Date object''] else [])"

definition validateStorageData :: "jsval \<Rightarrow> ValidationResult" where
  "validateStorageData d =
     (if \<not> truthy d \<or> typeof d \<noteq> ''object''
      then \<lparr>isValid = False, data = None, errors = [''Storage data must be an object'']\<rparr>
      else if length (hard_errors d) > 0
      then \<lparr>isValid = False, data = None, errors = hard_errors d\<rparr>
      else
        let validFiles = filter validateFileItem (as_array (get_prop d ''files''));
            invalidFileCount = length (as_array (get_prop d ''files''));
            filteredCount = invalidFileCount - length validFiles;
            validatedData =
              \<lparr>totalStorage = as_number (get_prop d ''totalStorage''),
               usedStorage = as_number (get_prop d ''usedStorage''),
               files = map as_FileItem validFiles,
               storageByType =
                 map (\<lambda>(k, v). (k, as_number v)) (own_entries (get_prop d ''storageByType'')),
               lastUpdated = as_date (get_prop d ''lastUpdated'')\<rparr>
        in \<lparr>isValid = True, data = Some validatedData,
            errors = (if filteredCount > 0 then [filtered_message filteredCount] else [])\<rparr>)"

section \<open>The storage store (\<^verbatim>\<open>stores/storageStore.ts\<close>)\<close>

text \<open>What a \<^verbatim>\<open>throw\<close> carries: an \<^verbatim>\<open>Error\<close> with its message, or any other value.\<close>

datatype exn = Error string | Thrown jsval

text \<open>
  What the module's object \<^verbatim>\<open>initialStorageData\<close> holds when the module has been loaded.
  Its \<^verbatim>\<open>lastUpdated\<close> is the \<^verbatim>\<open>new Date()\<close> of that moment, a parameter here.
\<close>

definition initialStorageData :: "int \<Rightarrow> StorageData" where
  "initialStorageData t0 =
     \<lparr>totalStorage = Num (15 * 1024 ^ 3),
      usedStorage = Num (1024 ^ 3),
      files = [],
      storageByType = [(''documents'', Num (512 * 1024 ^ 2)),
                       (''images'', Num (256 * 1024 ^ 2)),
                       (''videos'', Num (256 * 1024 ^ 2))],
      lastUpdated = DateAt t0\<rparr>"

text \<open>
  A store operation takes the snapshot that the store holds, and returns what the call
  returns or throws together with the snapshot that the store holds afterwards.
  \<^verbatim>\<open>baseSet\<close> and \<^verbatim>\<open>baseUpdate\<close> are the \<^verbatim>\<open>set\<close> and \<^verbatim>\<open>update\<close> of the underlying
  writable store: \<^verbatim>\<open>set\<close> makes the store hold the object it is given, and
  \<^verbatim>\<open>update(fn)\<close> is \<^verbatim>\<open>set(fn(value))\<close>, so the store writes nothing when \<^verbatim>\<open>fn\<close> throws.
  These functions describe one call, with snapshots as values. Which objects the store
  shares with its clients, and what their writes do to it between the calls, is the
  matter of the histories at the end of this section.
\<close>

type_synonym store_op = "StorageData \<Rightarrow> (exn + unit) \<times> StorageData"

definition baseSet :: "StorageData \<Rightarrow> store_op" where
  "baseSet v s = (Inr (), v)"

text \<open>
  The function handed to \<^verbatim>\<open>update\<close> is client code, and it is called with the store's own
  snapshot object, not with a copy: besides returning a snapshot it may write to the one
  it is given. It is modelled by what the given snapshot holds after the call and what
  the call returns. \<open>returning f\<close> is a function that builds its result and leaves its
  argument alone, as the arrow functions of the helpers below do with \<^verbatim>\<open>{...data, ...}\<close>.
\<close>

type_synonym 'a callback = "StorageData \<Rightarrow> StorageData \<times> 'a"

definition returning :: "(StorageData \<Rightarrow> 'a) \<Rightarrow> 'a callback" where
  "returning f d = (d, f d)"

definition baseUpdate :: "(exn + StorageData) callback \<Rightarrow> store_op" where
  "baseUpdate fn s =
     (case fn s of (s', Inl e) \<Rightarrow> (Inl e, s') | (s', Inr v) \<Rightarrow> baseSet v s')"

text \<open>\<^verbatim>\<open>Object.values(m).reduce((a, b) => a + b, 0)\<close>\<close>

definition sum_values :: "jsnum list \<Rightarrow> jsnum" where
  "sum_values vs = foldl js_add (Num 0) vs"

text \<open>
  The proportional correction, which the source writes out three times (in
  \<^verbatim>\<open>customSet\<close>, in \<^verbatim>\<open>customUpdate\<close> and in \<^verbatim>\<open>updateStorageByType\<close>).
\<close>

definition scale_down :: "jsnum \<Rightarrow> (string \<times> jsnum) list \<Rightarrow> (string \<times> jsnum) list" where
  "scale_down used sbt =
     (let sum = sum_values (map snd sbt)
      in if js_gt sum used \<and> js_gt sum (Num 0)
         then let scale = js_div used sum
              in map (\<lambda>(k, v). (k, js_floor (js_mul v scale))) sbt
         else sbt)"

definition invalid_error :: "ValidationResult \<Rightarrow> exn" where
  "invalid_error validation = Error (''Invalid storage data: '' @ join '', '' (errors validation))"

text \<open>The correction and validation that \<^verbatim>\<open>customSet\<close> and \<^verbatim>\<open>customUpdate\<close> share.\<close>

definition fix_and_validate :: "StorageData \<Rightarrow> exn + StorageData" where
  "fix_and_validate d =
     (let fixedData = d\<lparr>storageByType := scale_down (usedStorage d) (storageByType d)\<rparr>;
          validation = validateStorageData (js_of_StorageData fixedData)
      in case data validation of
           None \<Rightarrow> Inl (invalid_error validation)
         | Some v \<Rightarrow> if \<not> isValid validation then Inl (invalid_error validation) else Inr v)"

definition customSet :: "StorageData \<Rightarrow> store_op" where
  "customSet d s =
     (case fix_and_validate d of Inl e \<Rightarrow> (Inl e, s) | Inr v \<Rightarrow> baseSet v s)"

definition customUpdate :: "StorageData callback \<Rightarrow> store_op" where
  "customUpdate updater =
     baseUpdate (\<lambda>currentData.
       case updater currentData of (current', newData) \<Rightarrow> (current', fix_and_validate newData))"

text \<open>The helpers; \<open>now\<close> is the time value of the \<^verbatim>\<open>new Date()\<close> each of them takes.\<close>

definition updateUsedStorage :: "int \<Rightarrow> jsnum \<Rightarrow> store_op" where
  "updateUsedStorage now used' =
     customUpdate (returning (\<lambda>d. d\<lparr>usedStorage := used', lastUpdated := DateAt now\<rparr>))"

definition updateTotalStorage :: "int \<Rightarrow> jsnum \<Rightarrow> store_op" where
  "updateTotalStorage now total' =
     customUpdate (returning (\<lambda>d. d\<lparr>totalStorage := total', lastUpdated := DateAt now\<rparr>))"

definition updateFiles :: "int \<Rightarrow> FileItem list \<Rightarrow> store_op" where
  "updateFiles now fs =
     customUpdate (returning (\<lambda>d. d\<lparr>files := fs, lastUpdated := DateAt now\<rparr>))"

definition addFile :: "int \<Rightarrow> FileItem \<Rightarrow> store_op" where
  "addFile now file =
     customUpdate (returning (\<lambda>d. d\<lparr>files := files d @ [file], lastUpdated := DateAt now\<rparr>))"

definition removeFile :: "int \<Rightarrow> string \<Rightarrow> store_op" where
  "removeFile now fileId =
     customUpdate (returning (\<lambda>d. d\<lparr>files := filter (\<lambda>f. id_file f \<noteq> fileId) (files d),
                                     lastUpdated := DateAt now\<rparr>))"

definition updateStorageByType :: "int \<Rightarrow> (string \<times> jsnum) list \<Rightarrow> store_op" where
  "updateStorageByType now sbt =
     customUpdate (returning (\<lambda>d. d\<lparr>storageByType := scale_down (usedStorage d) sbt,
                                     lastUpdated := DateAt now\<rparr>))"

definition updateTimestamp :: "int \<Rightarrow> store_op" where
  "updateTimestamp now = baseUpdate (returning (\<lambda>d. Inr (d\<lparr>lastUpdated := DateAt now\<rparr>)))"

text \<open>
  \<^verbatim>\<open>reset\<close> copies the fields of the module's object \<^verbatim>\<open>initialStorageData\<close> as they are
  when it is called; \<open>initial\<close> is what that object holds then.
\<close>

definition reset :: "StorageData \<Rightarrow> int \<Rightarrow> store_op" where
  "reset initial now = baseSet (initial\<lparr>lastUpdated := DateAt now\<rparr>)"

text \<open>The calls a client can make.\<close>

datatype call =
    Set StorageData
  | Update "StorageData callback"
  | UpdateUsedStorage jsnum
  | UpdateTotalStorage jsnum
  | UpdateFiles "FileItem list"
  | AddFile FileItem
  | RemoveFile string
  | UpdateStorageByType "(string \<times> jsnum) list"
  | UpdateTimestamp
  | Reset

fun perform :: "StorageData \<Rightarrow> int \<Rightarrow> call \<Rightarrow> store_op" where
  "perform initial now (Set d) = customSet d"
| "perform initial now (Update updater) = customUpdate updater"
| "perform initial now (UpdateUsedStorage used') = updateUsedStorage now used'"
| "perform initial now (UpdateTotalStorage total') = updateTotalStorage now total'"
| "perform initial now (UpdateFiles fs) = updateFiles now fs"
| "perform initial now (AddFile file) = addFile now file"
| "perform initial now (RemoveFile fileId) = removeFile now fileId"
| "perform initial now (UpdateStorageByType sbt) = updateStorageByType now sbt"
| "perform initial now UpdateTimestamp = updateTimestamp now"
| "perform initial now Reset = reset initial now"

text \<open>
  Objects are shared between the store and its clients. The store is created holding the
  module's object \<^verbatim>\<open>initialStorageData\<close> itself, and it hands the object it holds to
  every subscriber and to every updater. A call that succeeds makes the store hold a new
  object (the \<^verbatim>\<open>validatedData\<close> of the validator, the object literal of
  \<^verbatim>\<open>updateTimestamp\<close> and of \<^verbatim>\<open>reset\<close>), but the \<^verbatim>\<open>storageByType\<close>, the file records and
  the dates in it are the objects of the data the call was given, and \<^verbatim>\<open>reset\<close> and the
  helpers copy the fields of an object one level deep only. So code outside the store can
  change what the store holds without calling it.

  The state of a history is what the module's object holds and what the store's own
  object holds; there is no such object as long as the store holds the module's. An
  event is a call at some time, or a write by code outside the store to the object that
  the store holds or to one that it refers to (\<open>WriteStored\<close>), or to the module's object
  or to one that it refers to (\<open>WriteInitial\<close>); the event says what the snapshot read
  from there holds after the write, and a write to an object that both refer to is two
  events. What an updater writes to the snapshot it was handed is part of its call: it
  is a write to the object the store holds at that time, which the store lets go of when
  the call succeeds; where the updater writes to an object that the module's object
  refers to as well, that write is a \<open>WriteInitial\<close> of its own. A call that throws
  leaves the history going: the store is still there for the next one.
\<close>

record store_state =
  module_object :: StorageData
  own_object :: "StorageData option"

definition stored :: "store_state \<Rightarrow> StorageData" where
  "stored st = (case own_object st of None \<Rightarrow> module_object st | Some v \<Rightarrow> v)"

definition write_stored :: "StorageData \<Rightarrow> store_state \<Rightarrow> store_state" where
  "write_stored v st =
     (case own_object st of
        None \<Rightarrow> st\<lparr>module_object := v\<rparr>
      | Some old \<Rightarrow> st\<lparr>own_object := Some v\<rparr>)"

definition created :: "int \<Rightarrow> store_state" where
  "created t0 = \<lparr>module_object = initialStorageData t0, own_object = None\<rparr>"

datatype event =
    Call int call
  | WriteStored "StorageData \<Rightarrow> StorageData"
  | WriteInitial "StorageData \<Rightarrow> StorageData"

text \<open>What the snapshot that a call hands to an updater holds after the call.\<close>

fun left_behind :: "call \<Rightarrow> StorageData \<Rightarrow> StorageData" where
  "left_behind (Update updater) s = fst (updater s)"
| "left_behind c s = s"

fun step :: "event \<Rightarrow> store_state \<Rightarrow> store_state" where
  "step (Call now c) st =
     (case perform (module_object st) now c (stored st) of
        (Inl e, s') \<Rightarrow> write_stored s' st
      | (Inr u, s') \<Rightarrow> (write_stored (left_behind c (stored st)) st)\<lparr>own_object := Some s'\<rparr>)"
| "step (WriteStored w) st = write_stored (w (stored st)) st"
| "step (WriteInitial w) st = st\<lparr>module_object := w (module_object st)\<rparr>"

declare step.simps [simp del]

fun run :: "event list \<Rightarrow> store_state \<Rightarrow> store_state" where
  "run [] st = st"
| "run (e # es) st = run es (step e st)"

text \<open>
  The snapshot that a subscriber is shown after a history that starts when the module is
  loaded, at the time \<open>t0\<close>.
\<close>

definition observable :: "int \<Rightarrow> event list \<Rightarrow> StorageData" where
  "observable t0 es = stored (run es (created t0))"

section \<open>The UI store (\<^verbatim>\<open>stores/uiStore.ts\<close>)\<close>

datatype theme = Light | Dark | Auto

record UIState =
  activeTabId :: string
  theme :: theme
  isLoading :: bool
  error :: "string option"

definition initialUIState :: UIState where
  "initialUIState =
     \<lparr>activeTabId = ''storage-overview'', theme = Auto, isLoading = False, error = None\<rparr>"

definition setActiveTab :: "string \<Rightarrow> UIState \<Rightarrow> UIState" where
  "setActiveTab tabId state = state\<lparr>activeTabId := tabId\<rparr>"

definition setTheme :: "theme \<Rightarrow> UIState \<Rightarrow> UIState" where
  "setTheme th state = state\<lparr>theme := th\<rparr>"

definition setLoading :: "bool \<Rightarrow> UIState \<Rightarrow> UIState" where
  "setLoading b state = state\<lparr>isLoading := b\<rparr>"

definition setError :: "string option \<Rightarrow> UIState \<Rightarrow> UIState" where
  "setError e state = state\<lparr>error := e\<rparr>"

definition clearError :: "UIState \<Rightarrow> UIState" where
  "clearError state = state\<lparr>error := None\<rparr>"

section \<open>Fetching (\<^verbatim>\<open>utils/fetchStorageData.ts\<close>)\<close>

text \<open>
  What \<^verbatim>\<open>fetch\<close> resolved to: the \<^verbatim>\<open>ok\<close> flag, the numeric status, and what
  \<^verbatim>\<open>response.json()\<close> gives or throws. The world outside the function is a parameter: what
  the request settles to, how the \<^verbatim>\<open>Date\<close> constructor reads a value, and the clock, which
  the calls of \<^verbatim>\<open>new Date()\<close> within one run read as one instant. The function is taken as
  one uninterrupted run: nothing else touches the stores while it waits.
\<close>

record Response =
  ok :: bool
  status :: nat
  json :: "exn + jsval"

record world =
  fetch :: "string \<Rightarrow> exn + Response"
  new_Date :: "jsval \<Rightarrow> jsdate"
  clock :: int

text \<open>
  Reading the property \<open>k\<close> of \<open>v\<close>, which is \<^verbatim>\<open>null\<close> or \<^verbatim>\<open>undefined\<close>, throws a
  \<^verbatim>\<open>TypeError\<close>; the wording of its message is the one of V8, the engine of Node.
\<close>

definition type_error :: "jsval \<Rightarrow> string \<Rightarrow> exn" where
  "type_error v k =
     Error (''Cannot read properties of '' @ (if v = JNull then ''null'' else ''undefined'')
            @ '' (reading '' @ [CHR 0x27] @ k @ [CHR 0x27] @ '')'')"

definition nullish :: "jsval \<Rightarrow> bool" where
  "nullish v = (v = JUndefined \<or> v = JNull)"

text \<open>\<^verbatim>\<open>{...file, lastModified: file.lastModified ? new Date(file.lastModified) : new Date()}\<close>\<close>

definition file_with_date :: "world \<Rightarrow> jsval \<Rightarrow> exn + jsval" where
  "file_with_date w file =
     (if nullish file then Inl (type_error file ''lastModified'')
      else Inr (JObject (AList.update ''lastModified''
             (JDate (if truthy (get_prop file ''lastModified'')
                     then new_Date w (get_prop file ''lastModified'')
                     else DateAt (clock w)))
             (own_entries file))))"

fun files_with_dates :: "world \<Rightarrow> jsval list \<Rightarrow> exn + jsval list" where
  "files_with_dates w [] = Inr []"
| "files_with_dates w (file # rest) =
     (case file_with_date w file of
        Inl e \<Rightarrow> Inl e
      | Inr f \<Rightarrow> (case files_with_dates w rest of Inl e \<Rightarrow> Inl e | Inr fs \<Rightarrow> Inr (f # fs)))"

definition dataWithDates :: "world \<Rightarrow> jsval \<Rightarrow> exn + jsval" where
  "dataWithDates w rawData =
     (if nullish rawData then Inl (type_error rawData ''lastUpdated'')
      else
        case (if isArray (get_prop rawData ''files'')
              then files_with_dates w (as_array (get_prop rawData ''files''))
              else Inr [])
        of Inl e \<Rightarrow> Inl e
         | Inr fs \<Rightarrow>
             Inr (JObject (AList.update ''files'' (JArray fs)
                    (AList.update ''lastUpdated''
                       (JDate (if truthy (get_prop rawData ''lastUpdated'')
                               then new_Date w (get_prop rawData ''lastUpdated'')
                               else DateAt (clock w)))
                       (own_entries rawData)))))"

text \<open>
  The body of the \<^verbatim>\<open>try\<close> block: what it returns or throws, and the storage snapshot
  afterwards. The only write to the storage store is the \<^verbatim>\<open>storageStore.set\<close> at its end.
\<close>

definition try_fetch :: "world \<Rightarrow> string \<Rightarrow> StorageData \<Rightarrow> (exn + StorageData) \<times> StorageData" where
  "try_fetch w apiEndpoint s =
     (case fetch w apiEndpoint of
        Inl e \<Rightarrow> (Inl e, s)
      | Inr response \<Rightarrow>
          if \<not> ok response
          then (Inl (Error (''HTTP error! status: '' @ show_nat (status response))), s)
          else
            case json response of
              Inl e \<Rightarrow> (Inl e, s)
            | Inr rawData \<Rightarrow>
                (case dataWithDates w rawData of
                   Inl e \<Rightarrow> (Inl e, s)
                 | Inr d \<Rightarrow>
                     let validation = validateStorageData d;
                         invalid = Error (''Invalid storage data received: ''
                                     @ join '', '' (errors validation))
                     in case data validation of
                          None \<Rightarrow> (Inl invalid, s)
                        | Some v \<Rightarrow>
                            if \<not> isValid validation then (Inl invalid, s)
                            else
                              let validatedData = v\<lparr>lastUpdated := DateAt (clock w)\<rparr>
                              in case customSet validatedData s of
                                   (Inl e, s') \<Rightarrow> (Inl e, s')
                                 | (Inr u, s') \<Rightarrow> (Inr validatedData, s')))"

definition errorMessage :: "exn \<Rightarrow> string" where
  "errorMessage e = (case e of Error m \<Rightarrow> m | Thrown v \<Rightarrow> ''Failed to fetch storage data'')"

definition fetchStorageData ::
    "world \<Rightarrow> string \<Rightarrow> UIState \<times> StorageData \<Rightarrow> (exn + StorageData) \<times> UIState \<times> StorageData"
where
  "fetchStorageData w apiEndpoint st =
     (let ui = clearError (setLoading True (fst st))
      in case try_fetch w apiEndpoint (snd st) of
           (Inr validatedData, s') \<Rightarrow> (Inr validatedData, setLoading False ui, s')
         | (Inl e, s') \<Rightarrow>
             (Inl e, setLoading False (setError (Some (errorMessage e)) ui), s'))"

section \<open>The tab registry (\<^verbatim>\<open>stores/tabRegistry.ts\<close>)\<close>

text \<open>
  The component is an opaque handle. The optional fields are options; \<^verbatim>\<open>a.order ?? 100\<close>
  reads an absent order as 100.
\<close>

record TabDefinition =
  id_tab :: string
  label :: string
  icon :: "string option"
  component :: jsval
  order :: "jsnum option"

definition order_or_default :: "TabDefinition \<Rightarrow> jsnum" where
  "order_or_default a = (case order a of None \<Rightarrow> Num 100 | Some n \<Rightarrow> n)"

text \<open>
  \<^verbatim>\<open>Array.prototype.sort\<close> with a comparison function is a stable sort: \<open>a\<close> is placed
  after \<open>b\<close> only when \<^verbatim>\<open>comparefn(a, b) > 0\<close>, and a \<^verbatim>\<open>NaN\<close> result counts as 0. It is
  modelled by a stable insertion sort. As long as the comparison function is consistent,
  which here means that no order is \<^verbatim>\<open>NaN\<close>, every stable sort returns the same list, so
  this is the list the engine returns. With an inconsistent comparison function the
  standard leaves the order to the engine, and the insertion sort gives one of the
  permitted results, not always the one of V8.
\<close>

fun insert_sorted :: "('a \<Rightarrow> 'a \<Rightarrow> jsnum) \<Rightarrow> 'a \<Rightarrow> 'a list \<Rightarrow> 'a list" where
  "insert_sorted comparefn a [] = [a]"
| "insert_sorted comparefn a (b # bs) =
     (if js_gt (comparefn a b) (Num 0) then b # insert_sorted comparefn a bs else a # b # bs)"

definition array_sort :: "('a \<Rightarrow> 'a \<Rightarrow> jsnum) \<Rightarrow> 'a list \<Rightarrow> 'a list" where
  "array_sort comparefn xs = foldr (insert_sorted comparefn) xs []"

definition sortTabs :: "TabDefinition list \<Rightarrow> TabDefinition list" where
  "sortTabs tabs = array_sort (\<lambda>a b. js_sub (order_or_default a) (order_or_default b)) tabs"

definition registerTab :: "TabDefinition \<Rightarrow> TabDefinition list \<Rightarrow> bool \<times> TabDefinition list" where
  "registerTab tabDef tabs =
     (let isDuplicate = list_ex (\<lambda>tab. id_tab tab = id_tab tabDef) tabs
      in if isDuplicate then (False, tabs)
         else let tabWithOrder = tabDef\<lparr>order := Some (order_or_default tabDef)\<rparr>;
                  newTabs = tabs @ [tabWithOrder]
              in (True, sortTabs newTabs))"

definition unregisterTab :: "string \<Rightarrow> TabDefinition list \<Rightarrow> bool \<times> TabDefinition list" where
  "unregisterTab tabId tabs =
     (let newTabs = filter (\<lambda>tab. id_tab tab \<noteq> tabId) tabs
      in (length newTabs < length tabs, newTabs))"

definition getTab :: "string \<Rightarrow> TabDefinition list \<Rightarrow> TabDefinition option" where
  "getTab tabId tabs = find (\<lambda>tab. id_tab tab = tabId) tabs"

definition hasTab :: "string \<Rightarrow> TabDefinition list \<Rightarrow> bool" where
  "hasTab tabId tabs = list_ex (\<lambda>tab. id_tab tab = tabId) tabs"

definition clear :: "TabDefinition list \<Rightarrow> TabDefinition list" where
  "clear tabs = []"

definition set_tabs :: "TabDefinition list \<Rightarrow> TabDefinition list \<Rightarrow> TabDefinition list" where
  "set_tabs tabs old = sortTabs tabs"

text \<open>A history of \<^verbatim>\<open>registerTab\<close> and \<^verbatim>\<open>set\<close> calls on the registry.\<close>

datatype tab_call = RegisterTab TabDefinition | SetTabs "TabDefinition list"

fun perform_tab :: "tab_call \<Rightarrow> TabDefinition list \<Rightarrow> TabDefinition list" where
  "perform_tab (RegisterTab tabDef) tabs = snd (registerTab tabDef tabs)"
| "perform_tab (SetTabs ts) tabs = set_tabs ts tabs"

fun run_tabs :: "tab_call list \<Rightarrow> TabDefinition list \<Rightarrow> TabDefinition list" where
  "run_tabs [] tabs = tabs"
| "run_tabs (c # cs) tabs = run_tabs cs (perform_tab c tabs)"

text \<open>\<^verbatim>\<open>validateTabDefinition\<close> of \<^verbatim>\<open>utils/validation.ts\<close>, and a typed tab as a plain value.\<close>

fun bad_order :: "jsval \<Rightarrow> bool" where
  "bad_order (JNumber n) = (js_lt n (Num 0) \<or> \<not> isInteger n)"
| "bad_order _ = True"

definition validateTabDefinition :: "jsval \<Rightarrow> bool" where
  "validateTabDefinition tab =
     (if \<not> truthy tab \<or> typeof tab \<noteq> ''object'' then False
      else if blank_string (get_prop tab ''id'') then False
      else if blank_string (get_prop tab ''label'') then False
      else if get_prop tab ''icon'' \<noteq> JUndefined \<and> typeof (get_prop tab ''icon'') \<noteq> ''string''
        then False
      else if \<not> truthy (get_prop tab ''component'')
              \<or> (typeof (get_prop tab ''component'') \<noteq> ''function''
                  \<and> typeof (get_prop tab ''component'') \<noteq> ''object'')
        then False
      else if get_prop tab ''order'' \<noteq> JUndefined \<and> bad_order (get_prop tab ''order'')
        then False
      else True)"

definition js_of_TabDefinition :: "TabDefinition \<Rightarrow> jsval" where
  "js_of_TabDefinition t =
     JObject ([(''id'', JString (id_tab t)), (''label'', JString (label t))]
              @ (case icon t of None \<Rightarrow> [] | Some i \<Rightarrow> [(''icon'', JString i)])
              @ [(''component'', component t)]
              @ (case order t of None \<Rightarrow> [] | Some n \<Rightarrow> [(''order'', JNumber n)]))"

section \<open>Notions used to state the properties\<close>

subsection \<open>The sign of a number\<close>

definition nonneg_or_inf :: "jsnum \<Rightarrow> bool" where
  "nonneg_or_inf n = (n = PosInf \<or> (\<exists>r\<ge>0. n = Num r))"

definition positive_or_inf :: "jsnum \<Rightarrow> bool" where
  "positive_or_inf n = (n = PosInf \<or> (\<exists>r>0. n = Num r))"

definition nonpos_or_inf :: "jsnum \<Rightarrow> bool" where
  "nonpos_or_inf n = (n = NegInf \<or> (\<exists>r\<le>0. n = Num r))"

subsection \<open>Storage snapshots\<close>

text \<open>A typed file record passes \<^verbatim>\<open>validateFileItem\<close>.\<close>

definition valid_file :: "FileItem \<Rightarrow> bool" where
  "valid_file f = validateFileItem (js_of_FileItem f)"

text \<open>The checks of \<^verbatim>\<open>validateStorageData\<close> before its early return, on a typed snapshot.\<close>

definition hard_checks :: "StorageData \<Rightarrow> bool" where
  "hard_checks d =
     (isFinite (totalStorage d) \<and> js_gt (totalStorage d) (Num 0)
      \<and> isFinite (usedStorage d) \<and> js_le (Num 0) (usedStorage d)
      \<and> \<not> js_gt (usedStorage d) (totalStorage d)
      \<and> list_all (\<lambda>(k, v). isFinite v \<and> js_le (Num 0) v) (storageByType d)
      \<and> \<not> js_gt (sum_values (map snd (storageByType d))) (usedStorage d)
      \<and> \<not> isNaN (getTime (lastUpdated d)))"

text \<open>A snapshot after the proportional correction.\<close>

definition corrected :: "StorageData \<Rightarrow> StorageData" where
  "corrected d = d\<lparr>storageByType := scale_down (usedStorage d) (storageByType d)\<rparr>"

text \<open>What the store holds at any time: a snapshot that validation would return as it is.\<close>

definition valid_state :: "StorageData \<Rightarrow> bool" where
  "valid_state s = (hard_checks s \<and> list_all valid_file (files s))"

text \<open>
  An updater that does not write to the snapshot it is given, and a call that hands no
  other updater to \<^verbatim>\<open>update\<close>.
\<close>

definition leaves_argument :: "'a callback \<Rightarrow> bool" where
  "leaves_argument u = (\<forall>d. fst (u d) = d)"

fun careful :: "call \<Rightarrow> bool" where
  "careful (Update updater) = leaves_argument updater"
| "careful c = True"

text \<open>
  A history in which no code outside the store writes to an object that it shares with
  the store: every event is a call, and no updater writes to the snapshot it is given.
\<close>

fun own_call :: "event \<Rightarrow> bool" where
  "own_call (Call now c) = careful c"
| "own_call (WriteStored w) = False"
| "own_call (WriteInitial w) = False"

definition no_outside_writes :: "event list \<Rightarrow> bool" where
  "no_outside_writes es = list_all own_call es"

text \<open>
  The aggregate invariants in the words of the specification. The sum of the values of
  \<^verbatim>\<open>storageByType\<close> is the sum of the numbers themselves.
\<close>

definition exact_sum :: "jsnum list \<Rightarrow> real" where
  "exact_sum vs = (\<Sum>v\<leftarrow>vs. case v of Num r \<Rightarrow> r | _ \<Rightarrow> 0)"

definition aggregate_invariants :: "StorageData \<Rightarrow> bool" where
  "aggregate_invariants d =
     (isFinite (totalStorage d) \<and> js_gt (totalStorage d) (Num 0)
      \<and> isFinite (usedStorage d) \<and> js_le (Num 0) (usedStorage d)
      \<and> js_le (usedStorage d) (totalStorage d)
      \<and> list_all isFinite (map snd (storageByType d))
      \<and> js_le (Num (exact_sum (map snd (storageByType d)))) (usedStorage d))"

text \<open>
  The same invariants with the sum in double arithmetic: the values are added one after
  the other, in the order of the keys and starting from 0, and every partial sum is
  rounded to a double.
\<close>

definition rounded_invariants :: "StorageData \<Rightarrow> bool" where
  "rounded_invariants d =
     (isFinite (totalStorage d) \<and> js_gt (totalStorage d) (Num 0)
      \<and> isFinite (usedStorage d) \<and> js_le (Num 0) (usedStorage d)
      \<and> js_le (usedStorage d) (totalStorage d)
      \<and> list_all isFinite (map snd (storageByType d))
      \<and> js_le (foldl js_add (Num 0) (map snd (storageByType d))) (usedStorage d))"

text \<open>
  A whole number of bytes, and a number that is \<open>2 ^ 53\<close> or more, where the doubles are
  more than 1 apart.
\<close>

definition whole :: "jsnum \<Rightarrow> bool" where
  "whole v = (isInteger v \<and> js_le (Num 0) v)"

definition at_least_2_53 :: "jsnum \<Rightarrow> bool" where
  "at_least_2_53 n = (n = PosInf \<or> (\<exists>r\<ge>2 ^ 53. n = Num r))"

text \<open>
  An updater that sets \<^verbatim>\<open>usedStorage\<close> on the snapshot it is given and returns it:
  \<^verbatim>\<open>d => { d.usedStorage = n; return d; }\<close>.
\<close>

definition overwrite_used :: "jsnum \<Rightarrow> StorageData callback" where
  "overwrite_used n d = (d\<lparr>usedStorage := n\<rparr>, d\<lparr>usedStorage := n\<rparr>)"

text \<open>
  A history of calls, two of which throw. A snapshot of 16 petabytes of which 8 are used,
  with three types of \<open>2 ^ 53\<close>, 1 and 1 bytes. A snapshot with one byte used and the two
  types of 1 and \<open>2 ^ - 53\<close> bytes. A small snapshot whose \<^verbatim>\<open>storageByType\<close> the caller of
  \<^verbatim>\<open>set\<close> changes afterwards (\<^verbatim>\<open>t.a = 100\<close>).
\<close>

definition example_history :: "event list" where
  "example_history =
     [Call 1 (UpdateUsedStorage NaN), Call 2 UpdateTimestamp,
      Call 3 (Update (returning (\<lambda>d. d\<lparr>usedStorage := Num (- 1)\<rparr>))), Call 4 Reset,
      Call 5 (UpdateTotalStorage (Num 1099511627776))]"

definition absorbing :: StorageData where
  "absorbing =
     \<lparr>totalStorage = Num 18014398509481984, usedStorage = Num 9007199254740992, files = [],
      storageByType = [(''a'', Num 9007199254740992), (''b'', Num 1), (''c'', Num 1)],
      lastUpdated = DateAt 0\<rparr>"

definition fractional :: StorageData where
  "fractional =
     \<lparr>totalStorage = Num 2, usedStorage = Num 1, files = [],
      storageByType = [(''a'', Num 1), (''b'', Num (1 / 2 ^ 53))], lastUpdated = DateAt 0\<rparr>"

definition ten_bytes :: StorageData where
  "ten_bytes =
     \<lparr>totalStorage = Num 10, usedStorage = Num 5, files = [],
      storageByType = [(''a'', Num 1)], lastUpdated = DateAt 0\<rparr>"

definition caller_writes :: "StorageData \<Rightarrow> StorageData" where
  "caller_writes d = d\<lparr>storageByType := AList.update ''a'' (Num 100) (storageByType d)\<rparr>"

text \<open>
  The write of a subscriber that kept the first object it was shown, which is the
  module's: \<^verbatim>\<open>m.usedStorage = 16106127361\<close>.
\<close>

definition subscriber_writes :: "StorageData \<Rightarrow> StorageData" where
  "subscriber_writes d = d\<lparr>usedStorage := Num 16106127361\<rparr>"

text \<open>
  The reading of \<^verbatim>\<open>removeFile\<close> that removes the first record with the given id only,
  written from the words of the specification.
\<close>

fun spec_remove_first :: "string \<Rightarrow> FileItem list \<Rightarrow> FileItem list" where
  "spec_remove_first fileId [] = []"
| "spec_remove_first fileId (f # fs) =
     (if id_file f = fileId then fs else f # spec_remove_first fileId fs)"

subsection \<open>The checks of the validator, in the words of the specification\<close>

definition positive_finite :: "jsval \<Rightarrow> bool" where
  "positive_finite v = (case v of JNumber n \<Rightarrow> isFinite n \<and> js_gt n (Num 0) | _ \<Rightarrow> False)"

definition nonneg_finite :: "jsval \<Rightarrow> bool" where
  "nonneg_finite v = (case v of JNumber n \<Rightarrow> isFinite n \<and> js_le (Num 0) n | _ \<Rightarrow> False)"

definition used_greater_than_total :: "jsval \<Rightarrow> bool" where
  "used_greater_than_total d =
     (case (get_prop d ''usedStorage'', get_prop d ''totalStorage'') of
        (JNumber u, JNumber t) \<Rightarrow> js_gt u t
      | _ \<Rightarrow> False)"

text \<open>
  A value that has entries to look at is an object that is not \<^verbatim>\<open>null\<close>. A mapping is
  such an object that is not an array; the validator asks no more, so a \<^verbatim>\<open>Date\<close>, which has
  no entries, counts as an empty mapping.
\<close>

definition has_entries :: "jsval \<Rightarrow> bool" where
  "has_entries v = (truthy v \<and> typeof v = ''object'')"

definition is_mapping :: "jsval \<Rightarrow> bool" where
  "is_mapping v = (has_entries v \<and> \<not> isArray v)"

definition bad_keys :: "jsval \<Rightarrow> string list" where
  "bad_keys v =
     (if has_entries v then map fst (filter (\<lambda>(k, x). \<not> nonneg_finite x) (own_entries v)) else [])"

text \<open>
  The type-sum, read in two ways. The exact one is the sum of the values that are finite
  numbers. The rounded one adds the values one after the other in double arithmetic, in
  the order of the keys and starting from 0, a value that is not a number counting as 0.
\<close>

definition exact_type_sum :: "jsval \<Rightarrow> real" where
  "exact_type_sum v = (\<Sum>(k, x)\<leftarrow>own_entries v. case x of JNumber (Num r) \<Rightarrow> r | _ \<Rightarrow> 0)"

definition rounded_type_sum :: "jsval \<Rightarrow> jsnum" where
  "rounded_type_sum v =
     foldl js_add (Num 0) (map (\<lambda>(k, x). case x of JNumber n \<Rightarrow> n | _ \<Rightarrow> Num 0) (own_entries v))"

definition exact_sum_greater_than_used :: "jsval \<Rightarrow> bool" where
  "exact_sum_greater_than_used d =
     (has_entries (get_prop d ''storageByType'')
      \<and> (case get_prop d ''usedStorage'' of
            JNumber u \<Rightarrow> js_gt (Num (exact_type_sum (get_prop d ''storageByType''))) u
          | _ \<Rightarrow> False))"

definition type_sum_greater_than_used :: "jsval \<Rightarrow> bool" where
  "type_sum_greater_than_used d =
     (has_entries (get_prop d ''storageByType'')
      \<and> (case get_prop d ''usedStorage'' of
            JNumber u \<Rightarrow> js_gt (rounded_type_sum (get_prop d ''storageByType'')) u
          | _ \<Rightarrow> False))"

text \<open>A mapping to whole numbers of bytes.\<close>

definition whole_numbers :: "jsval \<Rightarrow> bool" where
  "whole_numbers v =
     (is_mapping v \<and> list_all (\<lambda>(k, x). case x of JNumber n \<Rightarrow> whole n | _ \<Rightarrow> False) (own_entries v))"

definition valid_date :: "jsval \<Rightarrow> bool" where
  "valid_date v = (case v of JDate (DateAt t) \<Rightarrow> True | _ \<Rightarrow> False)"

definition passes_hard_checks :: "jsval \<Rightarrow> bool" where
  "passes_hard_checks d =
     (has_entries d
      \<and> positive_finite (get_prop d ''totalStorage'')
      \<and> nonneg_finite (get_prop d ''usedStorage'')
      \<and> \<not> used_greater_than_total d
      \<and> isArray (get_prop d ''files'')
      \<and> is_mapping (get_prop d ''storageByType'')
      \<and> bad_keys (get_prop d ''storageByType'') = []
      \<and> \<not> type_sum_greater_than_used d
      \<and> valid_date (get_prop d ''lastUpdated''))"

text \<open>The hard checks with the exact type-sum, as the specification words them.\<close>

definition passes_exact_checks :: "jsval \<Rightarrow> bool" where
  "passes_exact_checks d =
     (has_entries d
      \<and> positive_finite (get_prop d ''totalStorage'')
      \<and> nonneg_finite (get_prop d ''usedStorage'')
      \<and> \<not> used_greater_than_total d
      \<and> isArray (get_prop d ''files'')
      \<and> is_mapping (get_prop d ''storageByType'')
      \<and> bad_keys (get_prop d ''storageByType'') = []
      \<and> \<not> exact_sum_greater_than_used d
      \<and> valid_date (get_prop d ''lastUpdated''))"

text \<open>
  The message of each failing check, one after the other: one fixed message for each of
  the seven checks and, for the values of \<^verbatim>\<open>storageByType\<close>, one message for each key whose
  value is not a non-negative finite number.
\<close>

definition failing_checks :: "jsval \<Rightarrow> string list" where
  "failing_checks d =
     (if positive_finite (get_prop d ''totalStorage'') then []
      else [''totalStorage must be a positive number''])
     @ (if nonneg_finite (get_prop d ''usedStorage'') then []
        else [''usedStorage must be a non-negative number''])
     @ (if used_greater_than_total d then [''usedStorage cannot exceed totalStorage''] else [])
     @ (if isArray (get_prop d ''files'') then [] else [''files must be an array''])
     @ (if is_mapping (get_prop d ''storageByType'') then []
        else [''storageByType must be an object''])
     @ map (\<lambda>k. ''storageByType['' @ [CHR 0x27] @ k @ [CHR 0x27] @ ''] must be a non-negative number'')
         (bad_keys (get_prop d ''storageByType''))
     @ (if type_sum_greater_than_used d
        then [''Sum of storageByType cannot exceed usedStorage''] else [])
     @ (if valid_date (get_prop d ''lastUpdated'') then []
        else [''lastUpdated must be a valid Date object''])"

subsection \<open>The tab registry\<close>

text \<open>
  An order that the comparison function can compare: any double or infinity, but not
  \<^verbatim>\<open>NaN\<close>.
\<close>

definition comparable :: "jsnum \<Rightarrow> bool" where
  "comparable n = (case n of Num x \<Rightarrow> is_double x | NaN \<Rightarrow> False | _ \<Rightarrow> True)"

fun tabs_of_call :: "tab_call \<Rightarrow> TabDefinition list" where
  "tabs_of_call (RegisterTab t) = [t]"
| "tabs_of_call (SetTabs ts) = ts"

definition comparable_orders :: "tab_call list \<Rightarrow> bool" where
  "comparable_orders cs =
     list_all (\<lambda>c. list_all (\<lambda>t. comparable (order_or_default t)) (tabs_of_call c)) cs"

definition sorted_by_order :: "TabDefinition list \<Rightarrow> bool" where
  "sorted_by_order tabs =
     sorted_wrt (\<lambda>a b. js_le (order_or_default a) (order_or_default b)) tabs"

text \<open>
  The entries of the registry in the order in which they came in: a \<^verbatim>\<open>set\<close> replaces them
  by the given list, an accepted \<^verbatim>\<open>registerTab\<close> adds its entry at the end.
\<close>

fun arrivals :: "tab_call list \<Rightarrow> TabDefinition list \<Rightarrow> TabDefinition list" where
  "arrivals [] acc = acc"
| "arrivals (RegisterTab t # cs) acc =
     arrivals cs (if list_ex (\<lambda>tab. id_tab tab = id_tab t) acc then acc
                  else acc @ [t\<lparr>order := Some (order_or_default t)\<rparr>])"
| "arrivals (SetTabs ts # cs) acc = arrivals cs ts"

text \<open>The extended reals that the orders range over, as a linear order.\<close>

fun rank :: "jsnum \<Rightarrow> int \<times> real" where
  "rank NegInf = (- 1, 0)"
| "rank (Num x) = (0, x)"
| "rank PosInf = (1, 0)"
| "rank NaN = (2, 0)"

definition order_key :: "TabDefinition \<Rightarrow> int \<times> real" where
  "order_key t = rank (order_or_default t)"

subsection \<open>Example file records\<close>

definition file_a :: FileItem where
  "file_a = \<lparr>id_file = ''1'', name = ''a.txt'', size_file = Num 100, type = ''text/plain'',
              lastModified = DateAt 0, path = ''/a.txt''\<rparr>"

definition file_b :: FileItem where
  "file_b = \<lparr>id_file = ''1'', name = ''b.txt'', size_file = Num 200, type = ''text/plain'',
              lastModified = DateAt 0, path = ''/b.txt''\<rparr>"

definition file_c :: FileItem where
  "file_c = \<lparr>id_file = ''2'', name = ''c.txt'', size_file = Num 300, type = ''text/plain'',
              lastModified = DateAt 0, path = ''/c.txt''\<rparr>"

text \<open>A valid snapshot of a store that is some petabytes large.\<close>

definition petabytes :: StorageData where
  "petabytes =
     \<lparr>totalStorage = Num 20000000000000000, usedStorage = Num 13184274119770082, files = [],
      storageByType = [], lastUpdated = DateAt 0\<rparr>"

subsection \<open>Example tabs and responses\<close>

definition tab_first :: TabDefinition where
  "tab_first = \<lparr>id_tab = ''stats'', label = ''First'', icon = None, component = JFunction,
                 order = None\<rparr>"

definition tab_files :: TabDefinition where
  "tab_files = \<lparr>id_tab = ''files'', label = ''Files'', icon = None, component = JFunction,
                 order = Some (Num 50)\<rparr>"

definition tab_second :: TabDefinition where
  "tab_second = \<lparr>id_tab = ''stats'', label = ''Second'', icon = None, component = JFunction,
                  order = Some (Num 5)\<rparr>"

definition tab_empty_label :: TabDefinition where
  "tab_empty_label = \<lparr>id_tab = ''a'', label = [], icon = None, component = JFunction,
                       order = None\<rparr>"

definition tab_no_component :: TabDefinition where
  "tab_no_component = \<lparr>id_tab = ''b'', label = ''B'', icon = None, component = JUndefined,
                        order = None\<rparr>"

definition tab_negative_order :: TabDefinition where
  "tab_negative_order = \<lparr>id_tab = ''c'', label = ''C'', icon = None, component = JFunction,
                          order = Some (Num (- 5))\<rparr>"

definition tab_fractional_order :: TabDefinition where
  "tab_fractional_order = \<lparr>id_tab = ''d'', label = ''D'', icon = None, component = JFunction,
                            order = Some (Num (3 / 2))\<rparr>"

definition not_found :: Response where
  "not_found = \<lparr>ok = False, status = 404, json = Inl (Error ''no body'')\<rparr>"

definition world_404 :: world where
  "world_404 = \<lparr>fetch = (\<lambda>url. Inr not_found), new_Date = (\<lambda>v. InvalidDate), clock = 7\<rparr>"

subsection \<open>Example histories of the registry\<close>

definition tab_with :: "string \<Rightarrow> jsnum option \<Rightarrow> TabDefinition" where
  "tab_with i n = \<lparr>id_tab = i, label = i, icon = None, component = JFunction, order = n\<rparr>"

definition history_30_10_20 :: "tab_call list" where
  "history_30_10_20 =
     [RegisterTab (tab_with ''thirty'' (Some (Num 30))),
      RegisterTab (tab_with ''default'' None),
      RegisterTab (tab_with ''ten'' (Some (Num 10))),
      RegisterTab (tab_with ''hundred'' (Some (Num 100))),
      RegisterTab (tab_with ''twenty'' (Some (Num 20)))]"

definition history_nan :: "tab_call list" where
  "history_nan =
     [RegisterTab (tab_with ''two'' (Some (Num 2))),
      RegisterTab (tab_with ''nan'' (Some NaN)),
      RegisterTab (tab_with ''one'' (Some (Num 1)))]"

subsection \<open>Example raw snapshots\<close>

definition file_no_id :: FileItem where
  "file_no_id = \<lparr>id_file = [], name = ''x.txt'', size_file = Num 50, type = ''text/plain'',
                  lastModified = DateAt 0, path = ''/x.txt''\<rparr>"

definition raw_three_files :: jsval where
  "raw_three_files =
     JObject [(''totalStorage'', JNumber (Num 1000)), (''usedStorage'', JNumber (Num 500)),
              (''files'', JArray [js_of_FileItem file_a, js_of_FileItem file_no_id,
                                  js_of_FileItem file_c]),
              (''storageByType'', JObject []), (''lastUpdated'', JDate (DateAt 0))]"

definition raw_inconsistent :: jsval where
  "raw_inconsistent =
     JObject [(''totalStorage'', JNumber (Num 100)), (''usedStorage'', JNumber (Num 500)),
              (''files'', JArray []),
              (''storageByType'', JObject [(''a'', JNumber NaN)]),
              (''lastUpdated'', JDate InvalidDate)]"

text \<open>A snapshot whose two types of 300 bytes add up to more than the 500 bytes used.\<close>

definition raw_overfull :: jsval where
  "raw_overfull =
     JObject [(''totalStorage'', JNumber (Num 1000)), (''usedStorage'', JNumber (Num 500)),
              (''files'', JArray []),
              (''storageByType'', JObject [(''a'', JNumber (Num 300)), (''b'', JNumber (Num 300))]),
              (''lastUpdated'', JDate (DateAt 0))]"

text \<open>
  The snapshot of 16 petabytes with the types of \<open>2 ^ 53\<close>, 1 and 1 bytes, untyped, the
  same with the small values first, and the one with a fraction of a byte.
\<close>

definition raw_absorbing :: jsval where
  "raw_absorbing =
     JObject [(''totalStorage'', JNumber (Num 18014398509481984)),
              (''usedStorage'', JNumber (Num 9007199254740992)),
              (''files'', JArray []),
              (''storageByType'',
                 JObject [(''a'', JNumber (Num 9007199254740992)), (''b'', JNumber (Num 1)),
                          (''c'', JNumber (Num 1))]),
              (''lastUpdated'', JDate (DateAt 0))]"

definition raw_fractional :: jsval where
  "raw_fractional =
     JObject [(''totalStorage'', JNumber (Num 2)), (''usedStorage'', JNumber (Num 1)),
              (''files'', JArray []),
              (''storageByType'',
                 JObject [(''a'', JNumber (Num 1)), (''b'', JNumber (Num (1 / 2 ^ 53)))]),
              (''lastUpdated'', JDate (DateAt 0))]"

definition raw_absorbing_reordered :: jsval where
  "raw_absorbing_reordered =
     JObject [(''totalStorage'', JNumber (Num 18014398509481984)),
              (''usedStorage'', JNumber (Num 9007199254740992)),
              (''files'', JArray []),
              (''storageByType'',
                 JObject [(''b'', JNumber (Num 1)), (''c'', JNumber (Num 1)),
                          (''a'', JNumber (Num 9007199254740992))]),
              (''lastUpdated'', JDate (DateAt 0))]"

section \<open>Typed snapshots under the validator\<close>

lemma get_prop_js_of_StorageData:
  "get_prop (js_of_StorageData d) ''totalStorage'' = JNumber (totalStorage d)"
  "get_prop (js_of_StorageData d) ''usedStorage'' = JNumber (usedStorage d)"
  "get_prop (js_of_StorageData d) ''files'' = JArray (map js_of_FileItem (files d))"
  "get_prop (js_of_StorageData d) ''storageByType'' =
     JObject (map (\<lambda>(k, v). (k, JNumber v)) (storageByType d))"
  "get_prop (js_of_StorageData d) ''lastUpdated'' = JDate (lastUpdated d)"
  by (simp_all add: js_of_StorageData_def)

lemma get_prop_js_of_FileItem:
  "get_prop (js_of_FileItem f) ''id'' = JString (id_file f)"
  "get_prop (js_of_FileItem f) ''name'' = JString (name f)"
  "get_prop (js_of_FileItem f) ''size'' = JNumber (size_file f)"
  "get_prop (js_of_FileItem f) ''type'' = JString (type f)"
  "get_prop (js_of_FileItem f) ''lastModified'' = JDate (lastModified f)"
  "get_prop (js_of_FileItem f) ''path'' = JString (path f)"
  by (simp_all add: js_of_FileItem_def)

lemma as_FileItem_js_of [simp]: "as_FileItem (js_of_FileItem f) = f"
  by (simp add: as_FileItem_def get_prop_js_of_FileItem)

lemma as_number_entries [simp]:
  "map (\<lambda>(k, v). (k, as_number v)) (map (\<lambda>(k, v). (k, JNumber v)) sbt) = sbt"
  by (induction sbt) auto

lemma storageByTypeSum_numbers_aux:
  "foldl (\<lambda>sum val. js_add sum (if typeof val = ''number'' then as_number val else Num 0)) a
     (map snd (map (\<lambda>(k, v). (k, JNumber v)) sbt)) = foldl js_add a (map snd sbt)"
  by (induction sbt arbitrary: a) auto

lemma storageByTypeSum_numbers:
  "storageByTypeSum (map snd (map (\<lambda>(k, v). (k, JNumber v)) sbt)) = sum_values (map snd sbt)"
  unfolding storageByTypeSum_def sum_values_def by (rule storageByTypeSum_numbers_aux)

lemma js_of_StorageData_object [simp]:
  "truthy (js_of_StorageData d)" "typeof (js_of_StorageData d) = ''object''"
  by (simp_all add: js_of_StorageData_def)

lemma storageByTypeSum_numbers_comp:
  "storageByTypeSum (map (snd \<circ> (\<lambda>(k, v). (k, JNumber v))) sbt) = sum_values (map snd sbt)"
  using storageByTypeSum_numbers [of sbt] by (simp only: map_map)

text \<open>The checks of the validator on a typed snapshot.\<close>

lemma value_errors_numbers:
  "value_errors (map (\<lambda>(k, v). (k, JNumber v)) sbt) =
     map value_message (map fst (filter (\<lambda>(k, v). js_lt v (Num 0) \<or> \<not> isFinite v) sbt))"
  by (induction sbt) auto

lemma finite_cases: "isFinite n \<longleftrightarrow> (\<exists>a. n = Num a)"
  by (cases n) auto

lemma hard_errors_empty_iff:
  "hard_errors (js_of_StorageData d) = [] \<longleftrightarrow> hard_checks d"
  by (auto simp: hard_errors_def hard_checks_def get_prop_js_of_StorageData
      storageByTypeSum_numbers_comp value_errors_numbers js_le_def js_gt_def finite_cases
      filter_empty_conv list_all_iff)

lemma hard_errors_typed:
  "hard_errors (js_of_StorageData d) =
     (if js_le (totalStorage d) (Num 0) \<or> \<not> isFinite (totalStorage d)
      then [''totalStorage must be a positive number''] else [])
     @ (if js_lt (usedStorage d) (Num 0) \<or> \<not> isFinite (usedStorage d)
        then [''usedStorage must be a non-negative number''] else [])
     @ (if js_gt (usedStorage d) (totalStorage d)
        then [''usedStorage cannot exceed totalStorage''] else [])
     @ value_errors (map (\<lambda>(k, v). (k, JNumber v)) (storageByType d))
     @ (if js_gt (sum_values (map snd (storageByType d))) (usedStorage d)
        then [''Sum of storageByType cannot exceed usedStorage''] else [])
     @ (if isNaN (getTime (lastUpdated d))
        then [''lastUpdated must be a valid Date object''] else [])"
  by (simp add: hard_errors_def get_prop_js_of_StorageData storageByTypeSum_numbers_comp)

lemma filter_valid_files:
  "map as_FileItem (filter validateFileItem (map js_of_FileItem fs)) = filter valid_file fs"
  by (induction fs) (auto simp: valid_file_def)

lemma as_number_entries_comp [simp]:
  "map ((\<lambda>(k, v). (k, as_number v)) \<circ> (\<lambda>(k, v). (k, JNumber v))) sbt = sbt"
  by (induction sbt) auto

lemma validateStorageData_typed:
  "validateStorageData (js_of_StorageData d) =
     (if hard_checks d
      then \<lparr>isValid = True, data = Some (d\<lparr>files := filter valid_file (files d)\<rparr>),
            errors = (if length (files d) - length (filter valid_file (files d)) > 0
                      then [filtered_message (length (files d) - length (filter valid_file (files d)))]
                      else [])\<rparr>
      else \<lparr>isValid = False, data = None, errors = hard_errors (js_of_StorageData d)\<rparr>)"
proof (cases "hard_checks d")
  case True
  then have "hard_errors (js_of_StorageData d) = []"
    by (simp add: hard_errors_empty_iff)
  moreover have "length (filter validateFileItem (map js_of_FileItem (files d)))
      = length (filter valid_file (files d))"
    using filter_valid_files [of "files d"] by (metis length_map)
  ultimately show ?thesis
    using True
    by (cases d)
      (simp add: validateStorageData_def get_prop_js_of_StorageData Let_def filter_valid_files)
next
  case False
  then have "hard_errors (js_of_StorageData d) \<noteq> []"
    by (simp add: hard_errors_empty_iff)
  with False show ?thesis
    by (simp add: validateStorageData_def)
qed

lemma fix_and_validate_eq:
  "fix_and_validate d =
     (if hard_checks (corrected d)
      then Inr ((corrected d)\<lparr>files := filter valid_file (files d)\<rparr>)
      else Inl (Error (''Invalid storage data: ''
                  @ join '', '' (hard_errors (js_of_StorageData (corrected d))))))"
  by (simp add: fix_and_validate_def Let_def validateStorageData_typed invalid_error_def
      corrected_def)

lemma hard_checks_files [simp]: "hard_checks (d\<lparr>files := fs\<rparr>) = hard_checks d"
  by (simp add: hard_checks_def)

lemma fix_and_validate_valid:
  "fix_and_validate d = Inr v \<Longrightarrow> valid_state v"
  by (auto simp: fix_and_validate_eq valid_state_def list_all_iff split: if_splits)

lemma scale_down_valid:
  "\<not> js_gt (sum_values (map snd sbt)) used \<Longrightarrow> scale_down used sbt = sbt"
  by (simp add: scale_down_def Let_def)

lemma corrected_valid: "hard_checks s \<Longrightarrow> corrected s = s"
  by (simp add: corrected_def hard_checks_def scale_down_valid)

lemma filter_valid_id: "list_all valid_file fs \<Longrightarrow> filter valid_file fs = fs"
  by (induction fs) auto

lemma fix_and_validate_valid_state:
  "valid_state s \<Longrightarrow> fix_and_validate s = Inr s"
  by (simp add: fix_and_validate_eq valid_state_def corrected_valid filter_valid_id)

section \<open>Powers of two and rounding\<close>

lemma pow2_pos [simp]: "0 < pow2 k"
  by (simp add: pow2_def)

lemma pow2_powi: "pow2 k = 2 powi k"
  by (simp add: pow2_def power_int_def field_simps)

lemma pow2_add: "pow2 (a + b) = pow2 a * pow2 b"
  by (simp add: pow2_powi power_int_add)

lemma pow2_nonneg_int: "0 \<le> k \<Longrightarrow> pow2 k = of_int (2 ^ nat k)"
  by (simp add: pow2_def)

lemma pow2_values: "pow2 0 = 1" "pow2 1 = 2" "pow2 (- 1) = 1 / 2"
  by (simp_all add: pow2_def)

lemma floor_log2_lower: "0 < x \<Longrightarrow> pow2 (floor_log2 x) \<le> x"
proof (induction x rule: floor_log2.induct)
  case (1 x)
  show ?case
  proof (cases "2 \<le> x")
    case True
    with 1 have "pow2 (floor_log2 (x / 2)) \<le> x / 2" by simp
    moreover have "floor_log2 x = floor_log2 (x / 2) + 1"
      using True 1(3) by (subst floor_log2.simps) simp
    ultimately show ?thesis by (simp add: pow2_add pow2_values)
  next
    case False
    show ?thesis
    proof (cases "x < 1")
      case True
      with 1 False have "pow2 (floor_log2 (x * 2)) \<le> x * 2" by simp
      moreover have "floor_log2 x = floor_log2 (x * 2) - 1"
        using True False 1(3) by (subst floor_log2.simps) simp
      moreover have "pow2 (floor_log2 (x * 2) - 1) = pow2 (floor_log2 (x * 2)) * pow2 (- 1)"
        using pow2_add [of "floor_log2 (x * 2)" "- 1"] by simp
      ultimately show ?thesis by (simp add: pow2_values)
    next
      case False
      with \<open>\<not> 2 \<le> x\<close> 1(3) have "floor_log2 x = 0" by (subst floor_log2.simps) simp
      with False show ?thesis by (simp add: pow2_values)
    qed
  qed
qed

lemma round_half_even_nonneg: "0 \<le> y \<Longrightarrow> 0 \<le> round_half_even y"
  by (auto simp: round_half_even_def)

lemma fl_nonneg: "0 \<le> x \<Longrightarrow> nonneg_or_inf (fl x)"
proof -
  assume "0 \<le> x"
  then have "0 \<le> x / pow2 (quantum_exp x)"
    by (simp add: less_imp_le)
  then have "0 \<le> round_half_even (x / pow2 (quantum_exp x))"
    by (rule round_half_even_nonneg)
  then have "0 \<le> round_to (quantum_exp x) x"
    by (simp add: round_to_def less_imp_le)
  then show ?thesis
    by (auto simp: fl_def overflow_def nonneg_or_inf_def)
qed

lemma js_add_nonneg:
  "nonneg_or_inf a \<Longrightarrow> isFinite v \<Longrightarrow> js_le (Num 0) v \<Longrightarrow> nonneg_or_inf (js_add a v)"
proof (cases a)
  case (Num x)
  assume "nonneg_or_inf a" "isFinite v" "js_le (Num 0) v"
  with Num obtain y where "v = Num y" "0 \<le> y" "0 \<le> x"
    by (cases v) (auto simp: nonneg_or_inf_def js_le_def)
  then show ?thesis using Num fl_nonneg [of "x + y"] by simp
qed (cases v; auto simp: nonneg_or_inf_def)+

lemma foldl_js_add_nonneg:
  "nonneg_or_inf a \<Longrightarrow> list_all (\<lambda>v. isFinite v \<and> js_le (Num 0) v) vs
     \<Longrightarrow> nonneg_or_inf (foldl js_add a vs)"
  by (induction vs arbitrary: a) (auto simp: js_add_nonneg)

lemma sum_values_nonneg:
  "list_all (\<lambda>(k, v). isFinite v \<and> js_le (Num 0) v) sbt
     \<Longrightarrow> nonneg_or_inf (sum_values (map snd sbt))"
  unfolding sum_values_def
  by (rule foldl_js_add_nonneg) (auto simp: nonneg_or_inf_def list_all_iff)

lemma valid_state_invariants: "hard_checks s \<Longrightarrow> rounded_invariants s"
proof -
  assume h: "hard_checks s"
  then have "nonneg_or_inf (sum_values (map snd (storageByType s)))"
    by (simp add: hard_checks_def sum_values_nonneg)
  then have "sum_values (map snd (storageByType s)) \<noteq> NaN"
    by (auto simp: nonneg_or_inf_def)
  moreover from h have "list_all isFinite (map snd (storageByType s))"
    by (auto simp: hard_checks_def list_all_iff)
  ultimately show ?thesis
    using h
    by (auto simp: hard_checks_def rounded_invariants_def sum_values_def js_le_def js_gt_def
        finite_cases)
qed

lemmas fl_eval = fl_def overflow_def round_to_def quantum_exp_def round_half_even_def pow2_def
  floor_log2.simps

lemma initial_sum:
  "sum_values [Num 536870912, Num 268435456, Num 268435456] = Num 1073741824"
  by (simp add: sum_values_def fl_eval)

lemma initial_valid: "valid_state (initialStorageData t0)"
  by (simp add: valid_state_def hard_checks_def initialStorageData_def initial_sum
      js_gt_def js_le_def isNaN_def)

section \<open>Sums of whole numbers\<close>

text \<open>
  A whole number below \<open>2 ^ 53\<close> is a double, and a number from \<open>2 ^ 53\<close> on is rounded to
  one from \<open>2 ^ 53\<close> on. So as long as the exact sum of whole numbers is below \<open>2 ^ 53\<close>,
  adding them in double arithmetic gives the exact sum, and otherwise it gives at least
  \<open>2 ^ 53\<close>.
\<close>

lemma floor_log2_upper: "0 < x \<Longrightarrow> x < pow2 (floor_log2 x + 1)"
proof (induction x rule: floor_log2.induct)
  case (1 x)
  show ?case
  proof (cases "2 \<le> x")
    case True
    with 1 have "x / 2 < pow2 (floor_log2 (x / 2) + 1)" by simp
    moreover have "floor_log2 x = floor_log2 (x / 2) + 1"
      using True 1(3) by (subst floor_log2.simps) simp
    moreover have "pow2 (floor_log2 (x / 2) + 1 + 1) = pow2 (floor_log2 (x / 2) + 1) * 2"
      using pow2_add [of "floor_log2 (x / 2) + 1" 1] by (simp add: pow2_values)
    ultimately show ?thesis by simp
  next
    case False
    show ?thesis
    proof (cases "x < 1")
      case True
      with 1 False have "x * 2 < pow2 (floor_log2 (x * 2) + 1)" by simp
      moreover have "floor_log2 x = floor_log2 (x * 2) - 1"
        using True False 1(3) by (subst floor_log2.simps) simp
      moreover have "pow2 (floor_log2 (x * 2) + 1) = pow2 (floor_log2 (x * 2)) * 2"
        using pow2_add [of "floor_log2 (x * 2)" 1] by (simp add: pow2_values)
      ultimately show ?thesis by simp
    next
      case False
      with \<open>\<not> 2 \<le> x\<close> 1(3) have "floor_log2 x = 0" by (subst floor_log2.simps) simp
      with \<open>\<not> 2 \<le> x\<close> show ?thesis by (simp add: pow2_values)
    qed
  qed
qed

lemma pow2_mono: "a \<le> b \<Longrightarrow> pow2 a \<le> pow2 b"
  by (simp add: pow2_powi power_int_increasing)

lemma pow2_less_imp: "pow2 a < pow2 b \<Longrightarrow> a < b"
  using pow2_mono [of b a] by (rule_tac ccontr) simp

lemma pow2_numeral: "pow2 53 = 2 ^ 53" "pow2 52 = 2 ^ 52"
  by (simp_all add: pow2_def)

lemma round_half_even_of_int [simp]: "round_half_even (of_int k) = k"
  by (simp add: round_half_even_def)

lemma round_half_even_ge: "of_int k \<le> y \<Longrightarrow> k \<le> round_half_even y"
proof -
  assume "of_int k \<le> y"
  then have "k \<le> \<lfloor>y\<rfloor>" by (simp add: le_floor_iff)
  then show ?thesis by (auto simp: round_half_even_def)
qed

lemma fl_whole:
  assumes "0 \<le> m" "m < 2 ^ 53"
  shows "fl (of_int m) = Num (of_int m)"
proof (cases "m = 0")
  case True
  then show ?thesis by (simp add: fl_eval)
next
  case False
  define x :: real where "x = of_int m"
  define e where "e = floor_log2 x"
  from assms False have pos: "0 < x" and one: "1 \<le> x" by (simp_all add: x_def)
  have "x < 2 ^ 53" using assms(2) unfolding x_def
    by (metis of_int_less_iff of_int_numeral of_int_power)
  with floor_log2_lower [OF pos] have "pow2 e < pow2 53"
    by (simp add: e_def pow2_numeral)
  then have e53: "e < 53" by (rule pow2_less_imp)
  from floor_log2_upper [OF pos] one have "pow2 0 < pow2 (e + 1)"
    by (simp add: e_def pow2_values)
  then have e0: "0 \<le> e" using pow2_less_imp [of 0 "e + 1"] by simp
  have q: "quantum_exp x = e - 52"
    using pos e0 by (simp add: quantum_exp_def e_def)
  define a where "a = pow2 (e - 52)"
  define p :: int where "p = 2 ^ nat (52 - e)"
  have "pow2 (52 - e) = of_int p"
    unfolding p_def using e53 by (intro pow2_nonneg_int) simp
  moreover have "pow2 (e - 52) * pow2 (52 - e) = 1"
    using pow2_add [of "e - 52" "52 - e"] by (simp add: pow2_values)
  ultimately have ap: "a * of_int p = 1" by (simp add: a_def)
  have "0 < a" unfolding a_def by (rule pow2_pos)
  then have nz: "a \<noteq> 0" by simp
  have "x / a = (x * (a * of_int p)) / a" by (simp only: ap mult_1_right)
  also have "\<dots> = of_int (m * p)" using nz by (simp add: x_def)
  finally have div: "x / a = of_int (m * p)" .
  have "round_to (e - 52) x = of_int (m * p) * a"
    unfolding round_to_def a_def [symmetric] div by (simp only: round_half_even_of_int)
  also have "\<dots> = x * (a * of_int p)" by (simp add: x_def)
  also have "\<dots> = x" by (simp only: ap mult_1_right)
  finally have r: "round_to (quantum_exp x) x = x" by (simp add: q)
  have "x < 2 ^ 1024"
    using \<open>x < 2 ^ 53\<close> by (rule less_le_trans) simp
  with pos r show ?thesis by (simp add: fl_def overflow_def x_def)
qed

lemma fl_at_least_2_53:
  assumes "2 ^ 53 \<le> x"
  shows "at_least_2_53 (fl x)"
proof -
  define e where "e = floor_log2 x"
  from assms have pos: "0 < x" by (rule less_le_trans [rotated]) simp
  from floor_log2_upper [OF pos] assms have "pow2 53 < pow2 (e + 1)"
    by (simp add: e_def pow2_numeral)
  then have e53: "53 \<le> e" using pow2_less_imp [of 53 "e + 1"] by simp
  then have q: "quantum_exp x = e - 52"
    using pos by (simp add: quantum_exp_def e_def)
  have split: "pow2 e = pow2 52 * pow2 (e - 52)"
    using pow2_add [of 52 "e - 52"] by simp
  have "pow2 e \<le> x"
    using floor_log2_lower [OF pos] by (simp add: e_def)
  then have "pow2 52 * pow2 (e - 52) \<le> x"
    by (simp only: split)
  then have "pow2 52 \<le> x / pow2 (e - 52)"
    by (simp add: pos_le_divide_eq)
  then have "of_int (2 ^ 52) \<le> x / pow2 (e - 52)" by (simp add: pow2_numeral)
  then have "2 ^ 52 \<le> round_half_even (x / pow2 (e - 52))" by (rule round_half_even_ge)
  then have "(2 ^ 52 :: real) \<le> of_int (round_half_even (x / pow2 (e - 52)))"
    by (metis of_int_le_iff of_int_numeral of_int_power)
  then have "2 ^ 52 * pow2 (e - 52) \<le> round_to (e - 52) x"
    unfolding round_to_def by (rule mult_right_mono) (simp add: less_imp_le)
  moreover have "pow2 53 \<le> pow2 e" using e53 by (rule pow2_mono)
  ultimately have "2 ^ 53 \<le> round_to (quantum_exp x) x"
    using split by (simp add: q pow2_numeral)
  then show ?thesis by (auto simp: fl_def overflow_def at_least_2_53_def)
qed

lemma whole_cases: "whole v \<longleftrightarrow> (\<exists>n\<ge>0. v = Num (of_int n))"
proof
  assume "whole v"
  then obtain a where a: "v = Num a" "of_int \<lfloor>a\<rfloor> = a" "0 \<le> a"
    by (cases v) (auto simp: whole_def js_le_def)
  then have "0 \<le> \<lfloor>a\<rfloor>" by simp
  with a show "\<exists>n\<ge>0. v = Num (of_int n)" by metis
next
  assume "\<exists>n\<ge>0. v = Num (of_int n)"
  then show "whole v" by (auto simp: whole_def js_le_def)
qed

lemma exact_sum_nonneg: "list_all whole vs \<Longrightarrow> 0 \<le> exact_sum vs"
  by (induction vs) (auto simp: exact_sum_def whole_cases)

lemma exact_sum_Cons: "exact_sum (Num b # vs) = b + exact_sum vs"
  by (simp add: exact_sum_def)

lemma foldl_js_add_large:
  "at_least_2_53 acc \<Longrightarrow> list_all whole vs \<Longrightarrow> at_least_2_53 (foldl js_add acc vs)"
proof (induction vs arbitrary: acc)
  case Nil
  then show ?case by simp
next
  case (Cons v vs)
  from Cons.prems obtain n :: int where v: "v = Num (of_int n)" "0 \<le> n"
    by (auto simp: whole_cases)
  have "at_least_2_53 (js_add acc v)"
  proof (cases "acc = PosInf")
    case True
    then show ?thesis by (simp add: v at_least_2_53_def)
  next
    case False
    with Cons.prems obtain x where x: "acc = Num x" "2 ^ 53 \<le> x"
      by (auto simp: at_least_2_53_def)
    with v have "2 ^ 53 \<le> x + of_int n" by simp
    then show ?thesis using x v by (simp add: fl_at_least_2_53)
  qed
  with Cons show ?case by simp
qed

lemma foldl_js_add_whole:
  "0 \<le> a \<Longrightarrow> a < 2 ^ 53 \<Longrightarrow> list_all whole vs \<Longrightarrow>
     (if of_int a + exact_sum vs < 2 ^ 53
      then foldl js_add (Num (of_int a)) vs = Num (of_int a + exact_sum vs)
      else at_least_2_53 (foldl js_add (Num (of_int a)) vs))"
proof (induction vs arbitrary: a)
  case Nil
  then have "(of_int a :: real) < 2 ^ 53"
    by (metis of_int_less_iff of_int_numeral of_int_power)
  then show ?case by (simp add: exact_sum_def)
next
  case (Cons v vs)
  from Cons.prems obtain n :: int where v: "v = Num (of_int n)" "0 \<le> n"
    by (auto simp: whole_cases)
  from Cons.prems have vs: "list_all whole vs" by simp
  define y :: real where "y = of_int (a + n)"
  have add: "js_add (Num (of_int a)) v = fl y" by (simp add: v y_def)
  have step: "foldl js_add (Num (of_int a)) (v # vs) = foldl js_add (fl y) vs"
    by (simp only: foldl_Cons add)
  have sum: "of_int a + exact_sum (v # vs) = y + exact_sum vs"
    by (simp add: v exact_sum_Cons y_def)
  show ?case
  proof (cases "a + n < 2 ^ 53")
    case True
    with Cons.prems v have fy: "fl y = Num y"
      unfolding y_def by (intro fl_whole) simp_all
    from Cons.prems v have "0 \<le> a + n" by simp
    from Cons.IH [OF this True vs]
    have "if y + exact_sum vs < 2 ^ 53
      then foldl js_add (Num y) vs = Num (y + exact_sum vs)
      else at_least_2_53 (foldl js_add (Num y) vs)"
      unfolding y_def .
    then show ?thesis unfolding step sum fy .
  next
    case False
    then have y: "2 ^ 53 \<le> y"
      unfolding y_def by (metis not_less of_int_le_iff of_int_numeral of_int_power)
    then have big: "at_least_2_53 (fl y)" by (rule fl_at_least_2_53)
    have "at_least_2_53 (foldl js_add (fl y) vs)"
      by (rule foldl_js_add_large [OF big vs])
    moreover have "\<not> y + exact_sum vs < 2 ^ 53"
      using y exact_sum_nonneg [OF vs] by simp
    ultimately show ?thesis unfolding step sum by simp
  qed
qed

lemma sum_values_whole:
  "list_all whole vs \<Longrightarrow>
     (if exact_sum vs < 2 ^ 53 then sum_values vs = Num (exact_sum vs)
      else at_least_2_53 (sum_values vs))"
  using foldl_js_add_whole [of 0 vs] by (auto simp: sum_values_def split: if_splits)

lemma sum_values_exact_gt:
  "list_all whole vs \<Longrightarrow> u < 2 ^ 53 \<Longrightarrow>
     js_gt (sum_values vs) (Num u) \<longleftrightarrow> u < exact_sum vs"
  using sum_values_whole [of vs]
  by (auto simp: js_gt_def at_least_2_53_def split: if_splits)

lemma sum_values_exact_le:
  "list_all whole vs \<Longrightarrow> u < 2 ^ 53 \<Longrightarrow> \<not> js_gt (sum_values vs) (Num u) \<Longrightarrow>
     exact_sum vs \<le> u"
  by (simp add: sum_values_exact_gt)

section \<open>The invariants of the stored snapshot\<close>

lemma valid_state_lastUpdated:
  "valid_state s \<Longrightarrow> valid_state (s\<lparr>lastUpdated := DateAt now\<rparr>)"
  by (simp add: valid_state_def hard_checks_def isNaN_def)

lemma customSet_valid: "valid_state s \<Longrightarrow> valid_state (snd (customSet d s))"
  by (auto simp: customSet_def baseSet_def fix_and_validate_valid split: sum.splits)

lemma customUpdate_eq:
  "customUpdate u s =
     (case fix_and_validate (snd (u s)) of
        Inl e \<Rightarrow> (Inl e, fst (u s))
      | Inr v \<Rightarrow> (Inr (), v))"
  by (simp add: customUpdate_def baseUpdate_def baseSet_def split: prod.splits sum.splits)

lemma customUpdate_valid:
  "leaves_argument u \<Longrightarrow> valid_state s \<Longrightarrow> valid_state (snd (customUpdate u s))"
  by (auto simp: customUpdate_eq leaves_argument_def fix_and_validate_valid split: sum.splits)

lemma leaves_argument_returning [simp]: "leaves_argument (returning f)"
  by (simp add: leaves_argument_def returning_def)

lemma perform_valid:
  "careful c \<Longrightarrow> valid_state initial \<Longrightarrow> valid_state s \<Longrightarrow>
     valid_state (snd (perform initial now c s))"
proof (cases c)
  case UpdateTimestamp
  assume "valid_state s"
  then show ?thesis
    using UpdateTimestamp
    by (simp add: updateTimestamp_def baseUpdate_def baseSet_def returning_def
        valid_state_lastUpdated)
next
  case Reset
  assume "valid_state initial"
  then show ?thesis
    using Reset by (simp add: reset_def baseSet_def valid_state_lastUpdated)
qed (simp_all add: customSet_valid customUpdate_valid updateUsedStorage_def
    updateTotalStorage_def updateFiles_def addFile_def removeFile_def updateStorageByType_def)

text \<open>A call whose updater leaves its argument alone either succeeds or changes nothing.\<close>

lemma customUpdate_unchanged:
  "leaves_argument u \<Longrightarrow> fst (customUpdate u s) = Inl e \<Longrightarrow> snd (customUpdate u s) = s"
  by (auto simp: customUpdate_eq leaves_argument_def split: sum.splits)

lemma perform_unchanged:
  "careful c \<Longrightarrow> fst (perform initial now c s) = Inl e \<Longrightarrow> snd (perform initial now c s) = s"
proof (cases c)
  case (Set d)
  assume "fst (perform initial now c s) = Inl e"
  with Set show ?thesis by (auto simp: customSet_def baseSet_def split: sum.splits)
next
  case UpdateTimestamp
  assume "fst (perform initial now c s) = Inl e"
  with UpdateTimestamp show ?thesis
    by (simp add: updateTimestamp_def baseUpdate_def baseSet_def returning_def)
next
  case Reset
  assume "fst (perform initial now c s) = Inl e"
  with Reset show ?thesis by (simp add: reset_def baseSet_def)
qed (auto simp: updateUsedStorage_def updateTotalStorage_def updateFiles_def addFile_def
    removeFile_def updateStorageByType_def intro: customUpdate_unchanged)

lemma left_behind_careful: "careful c \<Longrightarrow> left_behind c s = s"
  by (cases c) (simp_all add: leaves_argument_def)

lemma stored_write_stored [simp]: "stored (write_stored v st) = v"
  by (simp add: stored_def write_stored_def split: option.splits)

lemma write_stored_same [simp]: "write_stored (stored st) st = st"
  by (simp add: stored_def write_stored_def split: option.splits)

lemma stored_own_object [simp]: "stored (st\<lparr>own_object := Some v\<rparr>) = v"
  by (simp add: stored_def)

text \<open>What a call does to the state of a history.\<close>

lemma stored_step:
  "stored (step (Call now c) st) = snd (perform (module_object st) now c (stored st))"
  by (cases "perform (module_object st) now c (stored st)")
    (auto simp: step.simps split: sum.splits)

lemma module_object_step:
  "careful c \<Longrightarrow> module_object (step (Call now c) st) = module_object st"
proof -
  assume c: "careful c"
  obtain r s' where p: "perform (module_object st) now c (stored st) = (r, s')"
    by (cases "perform (module_object st) now c (stored st)")
  show ?thesis
  proof (cases r)
    case (Inl e)
    with p perform_unchanged [OF c, of "module_object st" now "stored st" e]
    have "s' = stored st" by simp
    with p Inl show ?thesis by (simp add: step.simps)
  next
    case (Inr u)
    with p show ?thesis by (simp add: step.simps left_behind_careful [OF c])
  qed
qed

lemma run_append: "run (es @ fs) st = run fs (run es st)"
  by (induction es arbitrary: st) simp_all

lemma run_module_object:
  "no_outside_writes es \<Longrightarrow> module_object (run es st) = module_object st"
proof (induction es arbitrary: st)
  case Nil
  show ?case by simp
next
  case (Cons e es)
  then obtain now c where e: "e = Call now c" "careful c"
    by (cases e) (simp_all add: no_outside_writes_def)
  with Cons show ?case by (simp add: no_outside_writes_def module_object_step)
qed

lemma run_valid:
  "no_outside_writes es \<Longrightarrow> valid_state (module_object st) \<Longrightarrow> valid_state (stored st) \<Longrightarrow>
     valid_state (stored (run es st))"
proof (induction es arbitrary: st)
  case Nil
  then show ?case by simp
next
  case (Cons e es)
  then obtain now c where e: "e = Call now c" "careful c"
    by (cases e) (simp_all add: no_outside_writes_def)
  have "valid_state (stored (step e st))"
    using perform_valid [OF e(2) Cons.prems(2) Cons.prems(3)] by (simp add: e stored_step)
  moreover have "valid_state (module_object (step e st))"
    using Cons.prems(2) by (simp add: e module_object_step)
  moreover have "no_outside_writes es"
    using Cons.prems(1) by (simp add: no_outside_writes_def)
  ultimately show ?case using Cons.IH by simp
qed

lemma stored_created [simp]: "stored (created t) = initialStorageData t"
  by (simp add: stored_def created_def)

lemma module_object_created [simp]: "module_object (created t) = initialStorageData t"
  by (simp add: created_def)

lemma observable_valid: "no_outside_writes es \<Longrightarrow> valid_state (observable t es)"
  unfolding observable_def by (rule run_valid) (simp_all add: initial_valid)

lemma observable_Nil [simp]: "observable t [] = initialStorageData t"
  by (simp add: observable_def)

lemma observable_snoc:
  "no_outside_writes es \<Longrightarrow>
     observable t (es @ [Call now c]) = snd (perform (initialStorageData t) now c (observable t es))"
  by (simp add: observable_def run_append stored_step run_module_object)

text \<open>With whole numbers of bytes below \<open>2 ^ 53\<close>, the rounded sum is the exact one.\<close>

lemma hard_checks_exact:
  assumes "hard_checks s" "list_all whole (map snd (storageByType s))"
    and "js_lt (usedStorage s) (Num (2 ^ 53))"
  shows "aggregate_invariants s"
proof -
  from assms(1) obtain u where u: "usedStorage s = Num u"
    by (auto simp: hard_checks_def finite_cases)
  with assms(3) have "u < 2 ^ 53" by simp
  moreover from assms(1) u have "\<not> js_gt (sum_values (map snd (storageByType s))) (Num u)"
    by (simp add: hard_checks_def)
  ultimately have "exact_sum (map snd (storageByType s)) \<le> u"
    using assms(2) by (intro sum_values_exact_le)
  moreover from assms(1) have "list_all isFinite (map snd (storageByType s))"
    by (auto simp: hard_checks_def list_all_iff)
  ultimately show ?thesis
    using assms(1) u
    by (auto simp: hard_checks_def aggregate_invariants_def js_le_def js_gt_def finite_cases)
qed

text \<open>
  C1, as amended. Whatever calls are made on the store from the moment it is created, as
  long as no code outside the store writes to an object that it shares with the store (no
  updater to the snapshot it is handed, and nobody else to the objects the store holds or
  was given, or to the module's initial data), the snapshot it holds afterwards, and so
  every snapshot a subscriber is shown, has a positive finite \<^verbatim>\<open>totalStorage\<close>, a
  non-negative finite \<^verbatim>\<open>usedStorage\<close> that is at most \<^verbatim>\<open>totalStorage\<close>, and a
  \<^verbatim>\<open>storageByType\<close> whose sum, in double arithmetic, is at most \<^verbatim>\<open>usedStorage\<close>. When the
  values of \<^verbatim>\<open>storageByType\<close> are whole numbers and \<^verbatim>\<open>usedStorage\<close> is below \<open>2 ^ 53\<close>, that
  is their exact sum, and the invariants hold in the words of the specification.
\<close>

theorem storage_invariants_hold:
  "no_outside_writes es \<Longrightarrow>
     rounded_invariants (observable loaded es)
     \<and> (list_all whole (map snd (storageByType (observable loaded es)))
          \<and> js_lt (usedStorage (observable loaded es)) (Num (2 ^ 53))
        \<longrightarrow> aggregate_invariants (observable loaded es))"
  using observable_valid [of es loaded]
  by (simp add: valid_state_def valid_state_invariants hard_checks_exact)

lemma customUpdate_valid_result:
  "valid_state (f s) \<Longrightarrow> customUpdate (returning f) s = (Inr (), f s)"
  by (simp add: customUpdate_eq returning_def fix_and_validate_valid_state)

lemma example_history_careful: "no_outside_writes example_history"
  by (simp add: no_outside_writes_def example_history_def)

lemma example_history_state:
  "observable 0 example_history
   = (initialStorageData 0)\<lparr>totalStorage := Num 1099511627776, lastUpdated := DateAt 5\<rparr>"
proof -
  let ?es = "[Call 1 (UpdateUsedStorage NaN), Call 2 UpdateTimestamp,
      Call 3 (Update (returning (\<lambda>d. d\<lparr>usedStorage := Num (- 1)\<rparr>)))]"
  have 1: "no_outside_writes ?es" by (simp add: no_outside_writes_def)
  have 2: "no_outside_writes (?es @ [Call 4 Reset])" by (simp add: no_outside_writes_def)
  have r: "observable 0 (?es @ [Call 4 Reset]) = (initialStorageData 0)\<lparr>lastUpdated := DateAt 4\<rparr>"
    by (simp only: observable_snoc [OF 1]) (simp add: reset_def baseSet_def)
  have v: "valid_state ((initialStorageData 0)\<lparr>totalStorage := Num 1099511627776,
      lastUpdated := DateAt 5\<rparr>)"
    by (simp add: valid_state_def hard_checks_def initialStorageData_def initial_sum
        js_gt_def js_le_def isNaN_def)
  have "observable 0 ((?es @ [Call 4 Reset]) @ [Call 5 (UpdateTotalStorage (Num 1099511627776))])
      = (initialStorageData 0)\<lparr>totalStorage := Num 1099511627776, lastUpdated := DateAt 5\<rparr>"
    using v
    by (simp only: observable_snoc [OF 2] r) (simp add: updateTotalStorage_def customUpdate_valid_result)
  then show ?thesis by (simp add: example_history_def)
qed

theorem storage_invariants_hold_witness:
  "no_outside_writes example_history
   \<and> storageByType (observable 0 example_history)
       = [(''documents'', Num 536870912), (''images'', Num 268435456), (''videos'', Num 268435456)]
   \<and> usedStorage (observable 0 example_history) = Num 1073741824
   \<and> totalStorage (observable 0 example_history) = Num 1099511627776
   \<and> rounded_invariants (observable 0 example_history)
   \<and> aggregate_invariants (observable 0 example_history)"
proof -
  have w: "list_all whole (map snd (storageByType (observable 0 example_history)))"
    by (simp add: example_history_state initialStorageData_def whole_def js_le_def)
  have u: "js_lt (usedStorage (observable 0 example_history)) (Num (2 ^ 53))"
    by (simp add: example_history_state initialStorageData_def)
  from storage_invariants_hold [OF example_history_careful, of 0] w u example_history_careful
  show ?thesis by (simp add: example_history_state initialStorageData_def)
qed

text \<open>
  An updater that sets \<^verbatim>\<open>usedStorage\<close> above the capacity on the snapshot it is given, and
  returns it, makes \<^verbatim>\<open>update\<close> throw, but the object it wrote to is the one the store
  holds. As the first call of a history that object is the module's, so a \<^verbatim>\<open>reset\<close> brings
  the written value back. The caller of \<^verbatim>\<open>set\<close> still has the \<^verbatim>\<open>storageByType\<close> of the
  snapshot the store holds, and can raise a value in it; a subscriber that kept the
  module's object can write to it, and the next \<^verbatim>\<open>reset\<close> stores what it wrote. And
  without any such write, the
  three types of \<open>2 ^ 53\<close>, 1 and 1 bytes pass the check against the \<open>2 ^ 53\<close> bytes used,
  because the two single bytes are lost in the rounding of the sum; so does, below
  \<open>2 ^ 53\<close>, the fraction \<open>2 ^ - 53\<close> of a byte added to the one byte used.
\<close>

lemma overwrite_used_throws:
  "customUpdate (overwrite_used (Num 16106127361)) (initialStorageData 0)
   = (Inl (Error ''Invalid storage data: usedStorage cannot exceed totalStorage''),
      (initialStorageData 0)\<lparr>usedStorage := Num 16106127361\<rparr>)"
  by (simp add: customUpdate_eq overwrite_used_def fix_and_validate_eq corrected_def
      scale_down_def hard_checks_def hard_errors_typed initialStorageData_def initial_sum
      js_gt_def js_le_def isNaN_def)

lemma overwrite_used_state:
  "observable 0 [Call 1 (Update (overwrite_used (Num 16106127361)))]
   = (initialStorageData 0)\<lparr>usedStorage := Num 16106127361\<rparr>"
  by (simp add: observable_def stored_step overwrite_used_throws)

lemma overwrite_used_reset:
  "observable 0 [Call 1 (Update (overwrite_used (Num 16106127361))), Call 2 Reset]
   = (initialStorageData 0)\<lparr>usedStorage := Num 16106127361, lastUpdated := DateAt 2\<rparr>"
  by (simp add: observable_def step.simps overwrite_used_throws created_def write_stored_def
      stored_def reset_def baseSet_def)

lemma example_snapshots_are_doubles:
  "is_double 18014398509481984" "is_double 9007199254740992" "is_double 9007199254740994"
  "is_double 1" "is_double 2" "is_double (1 / 9007199254740992)" "is_double 16106127361"
  by (simp_all add: is_double_def fl_eval)

lemma absorbing_sum:
  "sum_values [Num 9007199254740992, Num 1, Num 1] = Num 9007199254740992"
  by (simp add: sum_values_def fl_eval)

lemma absorbing_state: "observable 0 [Call 1 (Set absorbing)] = absorbing"
  by (simp add: observable_def stored_step customSet_def baseSet_def fix_and_validate_eq
      corrected_def scale_down_def absorbing_sum hard_checks_def absorbing_def js_gt_def
      js_le_def isNaN_def)

lemma fractional_sum: "sum_values [Num 1, Num (1 / 9007199254740992)] = Num 1"
  by (simp add: sum_values_def fl_eval)

lemma fractional_state: "observable 0 [Call 1 (Set fractional)] = fractional"
  by (simp add: observable_def stored_step customSet_def baseSet_def fix_and_validate_eq
      corrected_def scale_down_def fractional_sum hard_checks_def fractional_def js_gt_def
      js_le_def isNaN_def)

lemma one_byte_sum: "sum_values [Num 1] = Num 1"
  by (simp add: sum_values_def fl_eval)

lemma subscriber_writes_state:
  "observable 0 [Call 1 UpdateTimestamp, WriteInitial subscriber_writes, Call 2 Reset]
   = (initialStorageData 0)\<lparr>usedStorage := Num 16106127361, lastUpdated := DateAt 2\<rparr>"
  by (simp add: observable_def step.simps updateTimestamp_def baseUpdate_def baseSet_def
      returning_def created_def write_stored_def stored_def reset_def subscriber_writes_def)

lemma caller_writes_state:
  "observable 0 [Call 1 (Set ten_bytes), WriteStored caller_writes]
   = ten_bytes\<lparr>storageByType := [(''a'', Num 100)]\<rparr>"
  by (simp add: observable_def step.simps customSet_def baseSet_def fix_and_validate_eq
      corrected_def scale_down_def one_byte_sum hard_checks_def ten_bytes_def js_gt_def
      js_le_def isNaN_def caller_writes_def)

theorem storage_invariants_counterexample:
  "\<not> aggregate_invariants (observable 0 [Call 1 (Update (overwrite_used (Num 16106127361)))])
   \<and> \<not> rounded_invariants (observable 0 [Call 1 (Update (overwrite_used (Num 16106127361)))])
   \<and> \<not> rounded_invariants
         (observable 0 [Call 1 (Update (overwrite_used (Num 16106127361))), Call 2 Reset])
   \<and> \<not> rounded_invariants (observable 0 [Call 1 (Set ten_bytes), WriteStored caller_writes])
   \<and> \<not> rounded_invariants
         (observable 0 [Call 1 UpdateTimestamp, WriteInitial subscriber_writes, Call 2 Reset])
   \<and> no_outside_writes [Call 1 (Set absorbing)]
   \<and> list_all whole (map snd (storageByType (observable 0 [Call 1 (Set absorbing)])))
   \<and> \<not> aggregate_invariants (observable 0 [Call 1 (Set absorbing)])
   \<and> no_outside_writes [Call 1 (Set fractional)]
   \<and> js_lt (usedStorage (observable 0 [Call 1 (Set fractional)])) (Num (2 ^ 53))
   \<and> \<not> aggregate_invariants (observable 0 [Call 1 (Set fractional)])"
proof (intro conjI)
  show "\<not> aggregate_invariants (observable 0 [Call 1 (Update (overwrite_used (Num 16106127361)))])"
    unfolding overwrite_used_state
    by (simp add: aggregate_invariants_def initialStorageData_def js_le_def)
  show "\<not> rounded_invariants (observable 0 [Call 1 (Update (overwrite_used (Num 16106127361)))])"
    unfolding overwrite_used_state
    by (simp add: rounded_invariants_def initialStorageData_def js_le_def)
  show "\<not> rounded_invariants
         (observable 0 [Call 1 (Update (overwrite_used (Num 16106127361))), Call 2 Reset])"
    unfolding overwrite_used_reset
    by (simp add: rounded_invariants_def initialStorageData_def js_le_def)
  show "\<not> rounded_invariants (observable 0 [Call 1 (Set ten_bytes), WriteStored caller_writes])"
    unfolding caller_writes_state
    by (simp add: rounded_invariants_def ten_bytes_def js_le_def fl_eval)
  show "\<not> rounded_invariants
         (observable 0 [Call 1 UpdateTimestamp, WriteInitial subscriber_writes, Call 2 Reset])"
    unfolding subscriber_writes_state
    by (simp add: rounded_invariants_def initialStorageData_def js_le_def)
  show "no_outside_writes [Call 1 (Set absorbing)]"
    by (simp add: no_outside_writes_def)
  show "\<not> aggregate_invariants (observable 0 [Call 1 (Set absorbing)])"
    unfolding absorbing_state
    by (simp add: aggregate_invariants_def absorbing_def exact_sum_def js_le_def)
  show "list_all whole (map snd (storageByType (observable 0 [Call 1 (Set absorbing)])))"
    unfolding absorbing_state by (simp add: absorbing_def whole_def js_le_def)
  show "no_outside_writes [Call 1 (Set fractional)]"
    by (simp add: no_outside_writes_def)
  show "js_lt (usedStorage (observable 0 [Call 1 (Set fractional)])) (Num (2 ^ 53))"
    unfolding fractional_state by (simp add: fractional_def)
  show "\<not> aggregate_invariants (observable 0 [Call 1 (Set fractional)])"
    unfolding fractional_state
    by (simp add: aggregate_invariants_def fractional_def exact_sum_def js_le_def)
qed

section \<open>The proportional correction and rounding\<close>

lemma ex_sum:
  "sum_values [Num 3765336062135483, Num 7894272217838678] = Num 11659608279974160"
  by (simp add: sum_values_def fl_eval)

lemma ex_scale_down:
  "scale_down (Num 3810659641134408)
     [(''a'', Num 3765336062135483), (''b'', Num 7894272217838678)]
   = [(''a'', Num 1230608595310326), (''b'', Num 2580051045824083)]"
  by (simp add: scale_down_def ex_sum js_gt_def Let_def fl_eval)

lemma ex_sum2:
  "sum_values [Num 1230608595310326, Num 2580051045824083] = Num 3810659641134409"
  by (simp add: sum_values_def fl_eval)

lemma failing_inputs_are_doubles:
  "is_double 4000000000000000" "is_double 3810659641134408" "is_double 3765336062135483"
  "is_double 7894272217838678" "is_double 20000000000000000" "is_double 13184274119770082"
  "is_double 9515458346014764" "is_double 14767060684740822"
  by (simp_all add: is_double_def fl_eval)

lemma ex2_sum:
  "sum_values [Num 9515458346014764, Num 14767060684740822] = Num 24282519030755584"
  by (simp add: sum_values_def fl_eval)

lemma ex2_scale_down:
  "scale_down (Num 13184274119770082)
     [(''a'', Num 9515458346014764), (''b'', Num 14767060684740822)]
   = [(''a'', Num 5166449619589118), (''b'', Num 8017824500180967)]"
  by (simp add: scale_down_def ex2_sum js_gt_def Let_def fl_eval)

lemma ex2_sum2:
  "sum_values [Num 5166449619589118, Num 8017824500180967] = Num 13184274119770084"
  by (simp add: sum_values_def fl_eval)

lemma ex2_scale_down2:
  "scale_down (Num 13184274119770082)
     [(''a'', Num 5166449619589118), (''b'', Num 8017824500180967)]
   = [(''a'', Num 5166449619589117), (''b'', Num 8017824500180966)]"
  by (simp add: scale_down_def ex2_sum2 js_gt_def Let_def fl_eval)

lemma ex2_sum3:
  "sum_values [Num 5166449619589117, Num 8017824500180966] = Num 13184274119770084"
  by (simp add: sum_values_def fl_eval)

text \<open>
  C2. A snapshot that passes every check except that the sum of its \<^verbatim>\<open>storageByType\<close>
  exceeds \<^verbatim>\<open>usedStorage\<close> is meant to be scaled down and accepted. In double arithmetic
  the correction can overshoot. With the capacity 4000000000000000, the used space
  3810659641134408 and the two types 3765336062135483 and 7894272217838678, the scaled
  values are 1230608595310326 and 2580051045824083: rounding in the scale factor and in
  the products pushes their sum one above \<^verbatim>\<open>usedStorage\<close>, and \<^verbatim>\<open>set\<close> throws instead of
  accepting. \<^verbatim>\<open>updateStorageByType\<close> corrects twice, once itself and once in
  \<^verbatim>\<open>customUpdate\<close>, and still throws on the second example.
\<close>

theorem correction_overshoots:
  "customSet
     \<lparr>totalStorage = Num 4000000000000000, usedStorage = Num 3810659641134408, files = [],
      storageByType = [(''a'', Num 3765336062135483), (''b'', Num 7894272217838678)],
      lastUpdated = DateAt 0\<rparr> s
   = (Inl (Error ''Invalid storage data: Sum of storageByType cannot exceed usedStorage''), s)
   \<and> updateStorageByType 1 [(''a'', Num 9515458346014764), (''b'', Num 14767060684740822)]
       petabytes
     = (Inl (Error ''Invalid storage data: Sum of storageByType cannot exceed usedStorage''),
        petabytes)"
proof
  show "customSet
     \<lparr>totalStorage = Num 4000000000000000, usedStorage = Num 3810659641134408, files = [],
      storageByType = [(''a'', Num 3765336062135483), (''b'', Num 7894272217838678)],
      lastUpdated = DateAt 0\<rparr> s
   = (Inl (Error ''Invalid storage data: Sum of storageByType cannot exceed usedStorage''), s)"
    by (simp add: customSet_def fix_and_validate_eq corrected_def ex_scale_down hard_checks_def
        hard_errors_typed ex_sum2 js_gt_def js_le_def isNaN_def)
  show "updateStorageByType 1 [(''a'', Num 9515458346014764), (''b'', Num 14767060684740822)]
       petabytes
     = (Inl (Error ''Invalid storage data: Sum of storageByType cannot exceed usedStorage''),
        petabytes)"
    by (simp add: updateStorageByType_def customUpdate_eq returning_def fix_and_validate_eq
        corrected_def petabytes_def ex2_scale_down ex2_scale_down2 hard_checks_def
        hard_errors_typed ex2_sum3 js_gt_def js_le_def isNaN_def)
qed

section \<open>Atomic writes\<close>












section \<open>Removing files\<close>

lemma valid_state_filter_files:
  "valid_state s \<Longrightarrow> valid_state (s\<lparr>files := filter P (files s), lastUpdated := DateAt now\<rparr>)"
  by (simp add: valid_state_def hard_checks_def isNaN_def list_all_iff)

lemma removeFile_valid_state:
  "valid_state s \<Longrightarrow>
     removeFile now fileId s
     = (Inr (), s\<lparr>files := filter (\<lambda>f. id_file f \<noteq> fileId) (files s),
                    lastUpdated := DateAt now\<rparr>)"
  by (simp add: removeFile_def customUpdate_valid_result valid_state_filter_files)

lemma addFile_valid_state:
  "valid_state s \<Longrightarrow> valid_file file \<Longrightarrow>
     addFile now file s = (Inr (), s\<lparr>files := files s @ [file], lastUpdated := DateAt now\<rparr>)"
  by (simp add: addFile_def customUpdate_valid_result valid_state_def hard_checks_def isNaN_def)

text \<open>
  C5, as amended. On every valid snapshot (one that \<^verbatim>\<open>validateStorageData\<close> returns as it
  is: the store holds no other as long as no outside code writes to its objects),
  \<^verbatim>\<open>removeFile(id)\<close> succeeds and removes every record whose id is the given one, not only
  the first; every other record stays, in its original order, \<^verbatim>\<open>lastUpdated\<close> is set to the
  time of the call, and the other fields stay as they are.
\<close>

theorem removeFile_removes_every_match:
  "valid_state s \<Longrightarrow>
     removeFile now fileId s
     = (Inr (), s\<lparr>files := filter (\<lambda>f. id_file f \<noteq> fileId) (files s),
                    lastUpdated := DateAt now\<rparr>)"
  by (simp add: removeFile_def customUpdate_valid_result valid_state_filter_files)

lemma trim_examples:
  "trim ''1'' = ''1''" "trim ''2'' = ''2''" "trim ''a.txt'' = ''a.txt''" "trim ''b.txt'' = ''b.txt''"
  "trim ''c.txt'' = ''c.txt''" "trim ''text/plain'' = ''text/plain''"
  "trim ''/a.txt'' = ''/a.txt''" "trim ''/b.txt'' = ''/b.txt''" "trim ''/c.txt'' = ''/c.txt''"
  by (simp_all add: trim_def is_space_def)

lemma valid_examples: "valid_file file_a" "valid_file file_b" "valid_file file_c"
  by (simp_all add: valid_file_def validateFileItem_def get_prop_js_of_FileItem file_a_def
      file_b_def file_c_def trim_examples isNaN_def, simp_all add: js_of_FileItem_def)

lemma one_file_careful: "no_outside_writes [Call 1 (AddFile file_a)]"
  by (simp add: no_outside_writes_def)

lemma one_file:
  "observable 0 [Call 1 (AddFile file_a)]
   = (initialStorageData 0)\<lparr>files := [file_a], lastUpdated := DateAt 1\<rparr>"
proof -
  have "no_outside_writes []" by (simp add: no_outside_writes_def)
  from observable_snoc [OF this, of 0 1 "AddFile file_a"]
  have "observable 0 [Call 1 (AddFile file_a)] = snd (addFile 1 file_a (initialStorageData 0))"
    by simp
  also have "\<dots> = (initialStorageData 0)\<lparr>files := files (initialStorageData 0) @ [file_a],
      lastUpdated := DateAt 1\<rparr>"
    by (simp only: addFile_valid_state [OF initial_valid valid_examples(1)] snd_conv)
  also have "\<dots> = (initialStorageData 0)\<lparr>files := [file_a], lastUpdated := DateAt 1\<rparr>"
    by (simp add: initialStorageData_def)
  finally show ?thesis .
qed

lemma one_file_valid:
  "valid_state ((initialStorageData 0)\<lparr>files := [file_a], lastUpdated := DateAt 1\<rparr>)"
  using observable_valid [OF one_file_careful, of 0] by (simp only: one_file)

lemma three_files_careful:
  "no_outside_writes [Call 1 (AddFile file_a), Call 2 (AddFile file_c), Call 3 (AddFile file_b)]"
  by (simp add: no_outside_writes_def)

lemma three_files:
  "observable 0 [Call 1 (AddFile file_a), Call 2 (AddFile file_c), Call 3 (AddFile file_b)]
   = (initialStorageData 0)\<lparr>files := [file_a, file_c, file_b], lastUpdated := DateAt 3\<rparr>"
proof -
  have c2: "no_outside_writes [Call 1 (AddFile file_a), Call 2 (AddFile file_c)]"
    by (simp add: no_outside_writes_def)
  have "observable 0 ([Call 1 (AddFile file_a)] @ [Call 2 (AddFile file_c)])
      = (initialStorageData 0)\<lparr>files := [file_a, file_c], lastUpdated := DateAt 2\<rparr>"
    by (simp only: observable_snoc [OF one_file_careful] one_file)
      (simp add: addFile_valid_state [OF one_file_valid valid_examples(3)])
  then have 2: "observable 0 [Call 1 (AddFile file_a), Call 2 (AddFile file_c)]
      = (initialStorageData 0)\<lparr>files := [file_a, file_c], lastUpdated := DateAt 2\<rparr>"
    by simp
  have v2: "valid_state ((initialStorageData 0)\<lparr>files := [file_a, file_c], lastUpdated := DateAt 2\<rparr>)"
    using observable_valid [OF c2, of 0] by (simp only: 2)
  have "observable 0 ([Call 1 (AddFile file_a), Call 2 (AddFile file_c)] @ [Call 3 (AddFile file_b)])
      = (initialStorageData 0)\<lparr>files := [file_a, file_c, file_b], lastUpdated := DateAt 3\<rparr>"
    by (simp only: observable_snoc [OF c2] 2)
      (simp add: addFile_valid_state [OF v2 valid_examples(2)])
  then show ?thesis by simp
qed

lemma three_files_valid:
  "valid_state
     (observable 0 [Call 1 (AddFile file_a), Call 2 (AddFile file_c), Call 3 (AddFile file_b)])"
  by (rule observable_valid [OF three_files_careful])

theorem removeFile_removes_every_match_witness:
  "valid_state
     (observable 0 [Call 1 (AddFile file_a), Call 2 (AddFile file_c), Call 3 (AddFile file_b)])
   \<and> files (observable 0 [Call 1 (AddFile file_a), Call 2 (AddFile file_c),
                           Call 3 (AddFile file_b)]) = [file_a, file_c, file_b]
   \<and> removeFile 4 ''1''
       (observable 0 [Call 1 (AddFile file_a), Call 2 (AddFile file_c), Call 3 (AddFile file_b)])
     = (Inr (), (initialStorageData 0)\<lparr>files := [file_c], lastUpdated := DateAt 4\<rparr>)"
  using removeFile_removes_every_match [OF three_files_valid, where now = 4 and fileId = "''1''"]
    three_files_valid
  unfolding three_files by (simp add: file_a_def file_b_def file_c_def)

text \<open>
  With two records of id 1 in the list, the later one is removed as well: the result is
  not what removing the first match alone would give. And on a snapshot that is not
  valid, here the one left by an updater that wrote a \<^verbatim>\<open>usedStorage\<close> above the capacity
  to the snapshot it was given, \<^verbatim>\<open>removeFile\<close> throws and removes nothing, although the
  list of files is a valid one.
\<close>

lemma one_file_overwritten:
  "observable 0 [Call 1 (AddFile file_a), Call 2 (Update (overwrite_used (Num 16106127361)))]
   = (initialStorageData 0)\<lparr>usedStorage := Num 16106127361, files := [file_a],
                               lastUpdated := DateAt 1\<rparr>"
proof -
  have "observable 0 ([Call 1 (AddFile file_a)]
          @ [Call 2 (Update (overwrite_used (Num 16106127361)))])
      = (initialStorageData 0)\<lparr>usedStorage := Num 16106127361, files := [file_a],
                                  lastUpdated := DateAt 1\<rparr>"
    by (simp only: observable_snoc [OF one_file_careful] one_file)
      (simp add: customUpdate_eq overwrite_used_def fix_and_validate_eq corrected_def
        scale_down_def hard_checks_def initialStorageData_def initial_sum js_gt_def js_le_def)
  then show ?thesis by simp
qed

lemma removeFile_overwritten:
  "removeFile 3 ''1''
     ((initialStorageData 0)\<lparr>usedStorage := Num 16106127361, files := [file_a],
                               lastUpdated := DateAt 1\<rparr>)
   = (Inl (Error ''Invalid storage data: usedStorage cannot exceed totalStorage''),
      (initialStorageData 0)\<lparr>usedStorage := Num 16106127361, files := [file_a],
                                lastUpdated := DateAt 1\<rparr>)"
  by (simp add: removeFile_def customUpdate_eq returning_def fix_and_validate_eq corrected_def
      scale_down_def hard_checks_def hard_errors_typed initialStorageData_def initial_sum
      js_gt_def js_le_def isNaN_def)

theorem removeFile_first_match_only_counterexample:
  "files (snd (removeFile 4 ''1''
       (observable 0 [Call 1 (AddFile file_a), Call 2 (AddFile file_c), Call 3 (AddFile file_b)])))
   \<noteq> spec_remove_first ''1''
       (files (observable 0 [Call 1 (AddFile file_a), Call 2 (AddFile file_c),
                             Call 3 (AddFile file_b)]))
   \<and> list_all valid_file
       (files (observable 0 [Call 1 (AddFile file_a),
                             Call 2 (Update (overwrite_used (Num 16106127361)))]))
   \<and> fst (removeFile 3 ''1''
       (observable 0 [Call 1 (AddFile file_a), Call 2 (Update (overwrite_used (Num 16106127361)))]))
     = Inl (Error ''Invalid storage data: usedStorage cannot exceed totalStorage'')
   \<and> files (snd (removeFile 3 ''1''
       (observable 0 [Call 1 (AddFile file_a), Call 2 (Update (overwrite_used (Num 16106127361)))])))
     = [file_a]"
proof (intro conjI)
  show "files (snd (removeFile 4 ''1''
       (observable 0 [Call 1 (AddFile file_a), Call 2 (AddFile file_c), Call 3 (AddFile file_b)])))
   \<noteq> spec_remove_first ''1''
       (files (observable 0 [Call 1 (AddFile file_a), Call 2 (AddFile file_c),
                             Call 3 (AddFile file_b)]))"
    using removeFile_valid_state [OF three_files_valid, where now = 4 and fileId = "''1''"]
    unfolding three_files by (simp add: file_a_def file_b_def file_c_def)
  show "list_all valid_file
       (files (observable 0 [Call 1 (AddFile file_a),
                             Call 2 (Update (overwrite_used (Num 16106127361)))]))"
    unfolding one_file_overwritten by (simp add: valid_examples)
  show "fst (removeFile 3 ''1''
       (observable 0 [Call 1 (AddFile file_a), Call 2 (Update (overwrite_used (Num 16106127361)))]))
     = Inl (Error ''Invalid storage data: usedStorage cannot exceed totalStorage'')"
    unfolding one_file_overwritten removeFile_overwritten by simp
  show "files (snd (removeFile 3 ''1''
       (observable 0 [Call 1 (AddFile file_a), Call 2 (Update (overwrite_used (Num 16106127361)))])))
     = [file_a]"
    unfolding one_file_overwritten removeFile_overwritten by simp
qed

text \<open>
  C6, as amended. On every valid snapshot, \<^verbatim>\<open>removeFile(id)\<close> with an id that no record
  has raises no error and leaves every field as it was except \<^verbatim>\<open>lastUpdated\<close>, which is
  set to the time of the call.
\<close>

theorem removeFile_absent_id:
  "valid_state s \<Longrightarrow> list_all (\<lambda>f. id_file f \<noteq> fileId) (files s) \<Longrightarrow>
     removeFile now fileId s = (Inr (), s\<lparr>lastUpdated := DateAt now\<rparr>)"
proof -
  assume v: "valid_state s" and "list_all (\<lambda>f. id_file f \<noteq> fileId) (files s)"
  then have "filter (\<lambda>f. id_file f \<noteq> fileId) (files s) = files s"
    by (simp add: list_all_iff)
  then show ?thesis
    by (simp add: removeFile_valid_state [OF v])
qed

theorem removeFile_absent_id_witness:
  "valid_state ((initialStorageData 0)\<lparr>files := [file_a], lastUpdated := DateAt 1\<rparr>)
   \<and> list_all (\<lambda>f. id_file f \<noteq> ''nonexistent'')
       (files ((initialStorageData 0)\<lparr>files := [file_a], lastUpdated := DateAt 1\<rparr>))
   \<and> removeFile 2 ''nonexistent''
       ((initialStorageData 0)\<lparr>files := [file_a], lastUpdated := DateAt 1\<rparr>)
     = (Inr (), (initialStorageData 0)\<lparr>files := [file_a], lastUpdated := DateAt 2\<rparr>)"
proof -
  have 2: "list_all (\<lambda>f. id_file f \<noteq> ''nonexistent'')
     (files ((initialStorageData 0)\<lparr>files := [file_a], lastUpdated := DateAt 1\<rparr>))"
    by (simp add: file_a_def)
  from removeFile_absent_id [OF one_file_valid 2, where now = 2] 2 one_file_valid
  show ?thesis by simp
qed

text \<open>The snapshot after such a call is not the snapshot before it: the timestamp moved.\<close>

theorem removeFile_absent_id_counterexample:
  "snd (removeFile 2 ''nonexistent'' (observable 0 [Call 1 (AddFile file_a)]))
   \<noteq> observable 0 [Call 1 (AddFile file_a)]"
proof -
  have "lastUpdated (snd (removeFile 2 ''nonexistent''
          ((initialStorageData 0)\<lparr>files := [file_a], lastUpdated := DateAt 1\<rparr>))) = DateAt 2"
    by (simp only: removeFile_valid_state [OF one_file_valid]) simp
  moreover have "lastUpdated ((initialStorageData 0)\<lparr>files := [file_a], lastUpdated := DateAt 1\<rparr>)
      = DateAt 1"
    by simp
  ultimately show ?thesis unfolding one_file by auto
qed

section \<open>Registering tabs\<close>

lemma mset_insert_sorted: "mset (insert_sorted comparefn a bs) = add_mset a (mset bs)"
  by (induction bs) auto

lemma mset_array_sort: "mset (array_sort comparefn xs) = mset xs"
  by (induction xs) (auto simp: array_sort_def mset_insert_sorted)

lemma set_array_sort: "set (array_sort comparefn xs) = set xs"
  using mset_array_sort [of comparefn xs] by (metis set_mset_mset)

lemma set_sortTabs [simp]: "set (sortTabs tabs) = set tabs"
  by (simp add: sortTabs_def set_array_sort)

lemma filter_array_sort_single:
  assumes "filter P xs = [x]"
  shows "filter P (array_sort comparefn xs) = [x]"
proof -
  have "mset (filter P (array_sort comparefn xs)) = mset (filter P xs)"
    by (simp add: mset_array_sort)
  with assms have "mset (filter P (array_sort comparefn xs)) = {#x#}" by simp
  then show ?thesis by (metis mset_single_iff_right)
qed

lemma filter_none: "\<not> list_ex P xs \<Longrightarrow> filter P xs = []"
  by (induction xs) auto

lemma registerTab_duplicate:
  "list_ex (\<lambda>tab. id_tab tab = id_tab tabDef) tabs \<Longrightarrow> registerTab tabDef tabs = (False, tabs)"
  by (simp add: registerTab_def)

lemma registerTab_fresh:
  "\<not> list_ex (\<lambda>tab. id_tab tab = id_tab tabDef) tabs \<Longrightarrow>
     registerTab tabDef tabs
     = (True, sortTabs (tabs @ [tabDef\<lparr>order := Some (order_or_default tabDef)\<rparr>]))"
  by (simp add: registerTab_def Let_def)

text \<open>
  C7. \<^verbatim>\<open>registerTab\<close> with an id that is already registered returns false and leaves the
  registry as it is. With a new id it returns true and inserts the entry: the registry
  afterwards holds the entries it held before and the new one, with its order filled in,
  and nothing else. The new entry is then the only one of its id, and a second call with
  the same id (whatever its label) returns false and changes nothing.
\<close>

theorem registerTab_unique_ids:
  "(list_ex (\<lambda>tab. id_tab tab = id_tab tabDef) tabs \<longrightarrow>
      registerTab tabDef tabs = (False, tabs))
   \<and> (\<not> list_ex (\<lambda>tab. id_tab tab = id_tab tabDef) tabs \<longrightarrow>
        fst (registerTab tabDef tabs) = True
        \<and> mset (snd (registerTab tabDef tabs))
            = add_mset (tabDef\<lparr>order := Some (order_or_default tabDef)\<rparr>) (mset tabs)
        \<and> filter (\<lambda>tab. id_tab tab = id_tab tabDef) (snd (registerTab tabDef tabs))
            = [tabDef\<lparr>order := Some (order_or_default tabDef)\<rparr>]
        \<and> (id_tab again = id_tab tabDef \<longrightarrow>
             registerTab again (snd (registerTab tabDef tabs))
             = (False, snd (registerTab tabDef tabs))))"
proof (intro conjI impI)
  assume "list_ex (\<lambda>tab. id_tab tab = id_tab tabDef) tabs"
  then show "registerTab tabDef tabs = (False, tabs)" by (rule registerTab_duplicate)
next
  assume fresh: "\<not> list_ex (\<lambda>tab. id_tab tab = id_tab tabDef) tabs"
  then show "fst (registerTab tabDef tabs) = True" by (simp add: registerTab_fresh)
  from fresh
  show "mset (snd (registerTab tabDef tabs))
      = add_mset (tabDef\<lparr>order := Some (order_or_default tabDef)\<rparr>) (mset tabs)"
    by (simp add: registerTab_fresh sortTabs_def mset_array_sort)
  from fresh
  have "filter (\<lambda>tab. id_tab tab = id_tab tabDef)
          (tabs @ [tabDef\<lparr>order := Some (order_or_default tabDef)\<rparr>])
        = [tabDef\<lparr>order := Some (order_or_default tabDef)\<rparr>]"
    by (simp add: filter_none)
  then show "filter (\<lambda>tab. id_tab tab = id_tab tabDef) (snd (registerTab tabDef tabs))
      = [tabDef\<lparr>order := Some (order_or_default tabDef)\<rparr>]"
    using fresh by (simp add: registerTab_fresh sortTabs_def filter_array_sort_single)
  assume "id_tab again = id_tab tabDef"
  then have "list_ex (\<lambda>tab. id_tab tab = id_tab again) (snd (registerTab tabDef tabs))"
    using fresh by (simp add: registerTab_fresh list_ex_iff)
  then show "registerTab again (snd (registerTab tabDef tabs))
      = (False, snd (registerTab tabDef tabs))"
    by (rule registerTab_duplicate)
qed

lemma sortTabs_single [simp]: "sortTabs [t] = [t]"
  by (simp add: sortTabs_def array_sort_def)

lemma register_first:
  "registerTab tab_first [tab_files] = (True, [tab_files, tab_first\<lparr>order := Some (Num 100)\<rparr>])"
  by (simp add: registerTab_def tab_first_def tab_files_def order_or_default_def sortTabs_def
      array_sort_def js_sub_def js_gt_def fl_eval)

theorem registerTab_unique_ids_witness:
  "registerTab tab_first [tab_files] = (True, [tab_files, tab_first\<lparr>order := Some (Num 100)\<rparr>])
   \<and> mset (snd (registerTab tab_first [tab_files]))
       = {#tab_first\<lparr>order := Some (Num 100)\<rparr>, tab_files#}
   \<and> filter (\<lambda>tab. id_tab tab = ''stats'') (snd (registerTab tab_first [tab_files]))
       = [tab_first\<lparr>order := Some (Num 100)\<rparr>]
   \<and> registerTab tab_second (snd (registerTab tab_first [tab_files]))
       = (False, [tab_files, tab_first\<lparr>order := Some (Num 100)\<rparr>])
   \<and> registerTab tab_second [tab_files, tab_first\<lparr>order := Some (Num 100)\<rparr>]
       = (False, [tab_files, tab_first\<lparr>order := Some (Num 100)\<rparr>])"
proof -
  have 2: "\<not> list_ex (\<lambda>tab. id_tab tab = id_tab tab_first) [tab_files]"
    by (simp add: tab_first_def tab_files_def)
  have 3: "id_tab tab_second = id_tab tab_first" by (simp add: tab_first_def tab_second_def)
  have 4: "id_tab tab_first = ''stats''" by (simp add: tab_first_def)
  have 5: "order_or_default tab_first = Num 100"
    by (simp add: order_or_default_def tab_first_def)
  have 6: "list_ex (\<lambda>tab. id_tab tab = id_tab tab_second)
      [tab_files, tab_first\<lparr>order := Some (Num 100)\<rparr>]"
    by (simp add: tab_first_def tab_second_def)
  from registerTab_unique_ids [where tabDef = tab_first and tabs = "[tab_files]"
      and again = tab_second] 2 3
  have "mset (snd (registerTab tab_first [tab_files]))
          = add_mset (tab_first\<lparr>order := Some (order_or_default tab_first)\<rparr>) (mset [tab_files])
        \<and> filter (\<lambda>tab. id_tab tab = id_tab tab_first) (snd (registerTab tab_first [tab_files]))
          = [tab_first\<lparr>order := Some (order_or_default tab_first)\<rparr>]
        \<and> registerTab tab_second (snd (registerTab tab_first [tab_files]))
          = (False, snd (registerTab tab_first [tab_files]))"
    by blast
  moreover from registerTab_unique_ids [where tabDef = tab_second
      and tabs = "[tab_files, tab_first\<lparr>order := Some (Num 100)\<rparr>]"] 6
  have "registerTab tab_second [tab_files, tab_first\<lparr>order := Some (Num 100)\<rparr>]
      = (False, [tab_files, tab_first\<lparr>order := Some (Num 100)\<rparr>])"
    by blast
  ultimately show ?thesis using register_first by (simp add: 4 5)
qed

text \<open>
  C10. \<^verbatim>\<open>registerTab\<close> looks at nothing but the id: every entry whose id is not in the
  registry is accepted and stored, with an absent order replaced by 100, also when
  \<^verbatim>\<open>validateTabDefinition\<close> refuses the entry.
\<close>

theorem registerTab_accepts_invalid_entries:
  "\<not> list_ex (\<lambda>tab. id_tab tab = id_tab tabDef) tabs \<Longrightarrow>
     \<not> validateTabDefinition (js_of_TabDefinition tabDef) \<Longrightarrow>
     fst (registerTab tabDef tabs) = True
     \<and> tabDef\<lparr>order := Some (order_or_default tabDef)\<rparr> \<in> set (snd (registerTab tabDef tabs))"
  by (simp add: registerTab_fresh)

lemma invalid_tabs:
  "\<not> validateTabDefinition (js_of_TabDefinition tab_empty_label)"
  "\<not> validateTabDefinition (js_of_TabDefinition tab_no_component)"
  "\<not> validateTabDefinition (js_of_TabDefinition tab_negative_order)"
  "\<not> validateTabDefinition (js_of_TabDefinition tab_fractional_order)"
  by (simp_all add: validateTabDefinition_def js_of_TabDefinition_def tab_empty_label_def
      tab_no_component_def tab_negative_order_def tab_fractional_order_def trim_def is_space_def)

theorem registerTab_accepts_invalid_entries_witness:
  "\<not> validateTabDefinition (js_of_TabDefinition tab_empty_label)
   \<and> registerTab tab_empty_label [] = (True, [tab_empty_label\<lparr>order := Some (Num 100)\<rparr>])
   \<and> \<not> validateTabDefinition (js_of_TabDefinition tab_no_component)
   \<and> registerTab tab_no_component [] = (True, [tab_no_component\<lparr>order := Some (Num 100)\<rparr>])
   \<and> \<not> validateTabDefinition (js_of_TabDefinition tab_negative_order)
   \<and> registerTab tab_negative_order [] = (True, [tab_negative_order])
   \<and> \<not> validateTabDefinition (js_of_TabDefinition tab_fractional_order)
   \<and> registerTab tab_fractional_order [] = (True, [tab_fractional_order])"
proof -
  have fresh: "\<And>t. \<not> list_ex (\<lambda>tab. id_tab tab = id_tab t) []" by simp
  note r = registerTab_accepts_invalid_entries [OF fresh]
  have "fst (registerTab tab_empty_label []) = True" using r [OF invalid_tabs(1)] by simp
  moreover have "fst (registerTab tab_no_component []) = True" using r [OF invalid_tabs(2)] by simp
  moreover have "fst (registerTab tab_negative_order []) = True"
    using r [OF invalid_tabs(3)] by simp
  moreover have "fst (registerTab tab_fractional_order []) = True"
    using r [OF invalid_tabs(4)] by simp
  moreover have
    "snd (registerTab tab_empty_label []) = [tab_empty_label\<lparr>order := Some (Num 100)\<rparr>]"
    "snd (registerTab tab_no_component []) = [tab_no_component\<lparr>order := Some (Num 100)\<rparr>]"
    "snd (registerTab tab_negative_order []) = [tab_negative_order]"
    "snd (registerTab tab_fractional_order []) = [tab_fractional_order]"
    by (simp_all add: registerTab_def order_or_default_def tab_empty_label_def
        tab_no_component_def tab_negative_order_def tab_fractional_order_def)
  ultimately show ?thesis using invalid_tabs by (simp add: prod_eq_iff)
qed

section \<open>HTTP errors of the fetch wrapper\<close>

text \<open>
  C9. When the request settles with a response that is not in the 2xx range (its \<^verbatim>\<open>ok\<close>
  flag is false), \<^verbatim>\<open>fetchStorageData\<close> throws an error with the message
  \<^verbatim>\<open>HTTP error! status: \<close> followed by the status code, stores that message in the UI
  state's \<^verbatim>\<open>error\<close>, sets \<^verbatim>\<open>isLoading\<close> back to false, and leaves the storage store alone.
\<close>

theorem fetch_http_error:
  assumes "fetch w apiEndpoint = Inr response"
    and "ok response \<longleftrightarrow> 200 \<le> status response \<and> status response \<le> 299"
    and "\<not> (200 \<le> status response \<and> status response \<le> 299)"
  shows "fetchStorageData w apiEndpoint (ui, s)
         = (Inl (Error (''HTTP error! status: '' @ show_nat (status response))),
            ui\<lparr>isLoading := False,
               error := Some (''HTTP error! status: '' @ show_nat (status response))\<rparr>,
            s)"
  using assms
  by (simp add: fetchStorageData_def try_fetch_def errorMessage_def setLoading_def setError_def
      clearError_def)

lemma show_nat_404: "show_nat 404 = ''404''"
  by (simp add: show_nat.simps)

theorem fetch_http_error_witness:
  "fetchStorageData world_404 ''https://api.example.com/storage''
     (initialUIState, initialStorageData 0)
   = (Inl (Error ''HTTP error! status: 404''),
      initialUIState\<lparr>error := Some ''HTTP error! status: 404''\<rparr>,
      initialStorageData 0)"
proof -
  have 1: "fetch world_404 ''https://api.example.com/storage'' = Inr not_found"
    by (simp add: world_404_def)
  have 2: "ok not_found \<longleftrightarrow> 200 \<le> status not_found \<and> status not_found \<le> 299"
    by (simp add: not_found_def)
  have 3: "\<not> (200 \<le> status not_found \<and> status not_found \<le> 299)"
    by (simp add: not_found_def)
  from fetch_http_error [OF 1 2 3, of initialUIState "initialStorageData 0"]
  show ?thesis by (simp add: not_found_def show_nat_404 initialUIState_def)
qed

section \<open>The sign of a rounded difference\<close>

lemma quantum_exp_lower: "- 1074 \<le> quantum_exp x"
  by (simp add: quantum_exp_def)

lemma is_double_multiple:
  assumes "is_double x"
  shows "\<exists>k::int. x = of_int k * pow2 (- 1074)"
proof -
  define q where "q = quantum_exp x"
  define m where "m = round_half_even (x / pow2 q)"
  from assms have "overflow (round_to q x) = Num x"
    by (simp add: is_double_def fl_def q_def)
  then have "round_to q x = x"
    by (auto simp: overflow_def split: if_splits)
  then have x: "x = of_int m * pow2 q" by (simp add: round_to_def m_def)
  have "0 \<le> q + 1074" using quantum_exp_lower [of x] by (simp add: q_def)
  then have "pow2 (q + 1074) = of_int (2 ^ nat (q + 1074))" by (rule pow2_nonneg_int)
  moreover have "pow2 q = pow2 (q + 1074) * pow2 (- 1074)"
    using pow2_add [of "q + 1074" "- 1074"] by simp
  ultimately have "x = of_int (m * 2 ^ nat (q + 1074)) * pow2 (- 1074)"
    using x by simp
  then show ?thesis by blast
qed

lemma round_half_even_ge_one: "1 \<le> y \<Longrightarrow> 1 \<le> round_half_even y"
proof -
  assume "1 \<le> y"
  then have "1 \<le> \<lfloor>y\<rfloor>" by linarith
  then show ?thesis by (auto simp: round_half_even_def)
qed

lemma round_half_even_nonpos: "y \<le> 0 \<Longrightarrow> round_half_even y \<le> 0"
proof -
  assume "y \<le> 0"
  then have f: "\<lfloor>y\<rfloor> \<le> 0" by linarith
  show ?thesis
  proof (cases "\<lfloor>y\<rfloor> = 0")
    case True
    with \<open>y \<le> 0\<close> have "y - of_int \<lfloor>y\<rfloor> \<le> 0" by simp
    then show ?thesis using True by (simp add: round_half_even_def)
  next
    case False
    with f have "\<lfloor>y\<rfloor> + 1 \<le> 0" by linarith
    with f show ?thesis by (auto simp: round_half_even_def)
  qed
qed

lemma fl_positive:
  assumes "pow2 (- 1074) \<le> y"
  shows "positive_or_inf (fl y)"
proof -
  define q where "q = quantum_exp y"
  have ypos: "0 < y" using assms pow2_pos [of "- 1074"] by linarith
  have "pow2 q \<le> y"
  proof (cases "- 1022 \<le> floor_log2 y")
    case True
    then have "q = floor_log2 y - 52" using ypos by (simp add: q_def quantum_exp_def)
    then have "pow2 (floor_log2 y) = pow2 q * pow2 52"
      using pow2_add [of q 52] by simp
    moreover have "1 \<le> pow2 52" by (simp add: pow2_def)
    moreover have "pow2 q * 1 \<le> pow2 q * pow2 52"
      by (rule mult_left_mono) (simp_all add: pow2_def)
    ultimately have "pow2 q \<le> pow2 (floor_log2 y)" by simp
    with floor_log2_lower [OF ypos] show ?thesis by linarith
  next
    case False
    then have "q = - 1074" using ypos by (simp add: q_def quantum_exp_def)
    with assms show ?thesis by simp
  qed
  then have "1 \<le> y / pow2 q" by (simp add: pos_le_divide_eq)
  then have "1 \<le> round_half_even (y / pow2 q)" by (rule round_half_even_ge_one)
  then have "0 < round_to q y"
    by (simp add: round_to_def)
  then show ?thesis
    by (auto simp: fl_def overflow_def positive_or_inf_def q_def)
qed

lemma fl_nonpos:
  assumes "y \<le> 0"
  shows "nonpos_or_inf (fl y)"
proof -
  from assms have "y / pow2 (quantum_exp y) \<le> 0"
    by (simp add: divide_le_0_iff less_imp_le)
  then have "round_half_even (y / pow2 (quantum_exp y)) \<le> 0" by (rule round_half_even_nonpos)
  then have "round_to (quantum_exp y) y \<le> 0"
    by (simp add: round_to_def mult_le_0_iff less_imp_le)
  then show ?thesis
    by (auto simp: fl_def overflow_def nonpos_or_inf_def)
qed

lemma double_difference_sign:
  assumes "is_double x" "is_double y"
  shows "js_gt (fl (x - y)) (Num 0) \<longleftrightarrow> y < x"
proof (cases "y < x")
  case True
  from assms obtain k l :: int where kl: "x = of_int k * pow2 (- 1074)" "y = of_int l * pow2 (- 1074)"
    using is_double_multiple by blast
  with True have "of_int l * pow2 (- 1074) < of_int k * pow2 (- 1074)" by simp
  then have "l < k" using pow2_pos [of "- 1074"] by (simp add: mult_less_cancel_right not_le)
  then have "1 \<le> k - l" by simp
  then have "(1::real) \<le> of_int (k - l)" by (metis of_int_1_le_iff)
  then have "1 * pow2 (- 1074) \<le> of_int (k - l) * pow2 (- 1074)"
    by (rule mult_right_mono) (simp add: less_imp_le)
  then have "pow2 (- 1074) \<le> of_int (k - l) * pow2 (- 1074)" by simp
  also have "\<dots> = x - y" by (simp add: kl algebra_simps)
  finally have "positive_or_inf (fl (x - y))" by (rule fl_positive)
  with True show ?thesis by (auto simp: positive_or_inf_def js_gt_def)
next
  case False
  then have "x - y \<le> 0" by simp
  then have "nonpos_or_inf (fl (x - y))" by (rule fl_nonpos)
  with False show ?thesis by (auto simp: nonpos_or_inf_def js_gt_def)
qed

lemma comparison_sign:
  "comparable a \<Longrightarrow> comparable b \<Longrightarrow> js_gt (js_sub a b) (Num 0) \<longleftrightarrow> rank b < rank a"
  by (cases a; cases b)
    (simp_all add: comparable_def js_sub_def double_difference_sign, simp_all add: js_gt_def)

section \<open>Sorting the tabs\<close>

lemma rank_inj: "rank a = rank b \<longleftrightarrow> a = b"
  by (cases a; cases b) simp_all

lemma rank_le: "comparable a \<Longrightarrow> comparable b \<Longrightarrow> rank a \<le> rank b \<longleftrightarrow> js_le a b"
  by (cases a; cases b) (auto simp: comparable_def js_le_def)

lemma insert_sorted_insort:
  "comparable (order_or_default a) \<Longrightarrow> list_all (\<lambda>t. comparable (order_or_default t)) bs \<Longrightarrow>
     insert_sorted (\<lambda>a b. js_sub (order_or_default a) (order_or_default b)) a bs
     = insort_key order_key a bs"
  by (induction bs) (auto simp: comparison_sign order_key_def not_le)

lemma array_sort_sort_key:
  "list_all (\<lambda>t. comparable (order_or_default t)) xs \<Longrightarrow>
     sortTabs xs = sort_key order_key xs"
proof (induction xs)
  case Nil
  then show ?case by (simp add: sortTabs_def array_sort_def)
next
  case (Cons x xs)
  then have "sortTabs xs = sort_key order_key xs" by simp
  moreover have "list_all (\<lambda>t. comparable (order_or_default t)) (sort_key order_key xs)"
    using Cons.prems by (simp add: list_all_iff)
  ultimately show ?case
    using Cons.prems insert_sorted_insort [of x "sort_key order_key xs"]
    by (simp add: sortTabs_def array_sort_def)
qed

lemma sort_key_append_sorted:
  "sort_key f (sort_key f xs @ ys) = sort_key f (xs @ ys)"
proof (rule sym, rule properties_for_sort_key)
  show "mset (sort_key f (sort_key f xs @ ys)) = mset (xs @ ys)" by simp
  show "sorted (map f (sort_key f (sort_key f xs @ ys)))" by (rule sorted_sort_key)
  fix k
  have "filter (\<lambda>x. f k = f x) (sort_key f (sort_key f xs @ ys))
      = filter (\<lambda>x. f x = f k) (sort_key f (sort_key f xs @ ys))"
    by (rule filter_cong) auto
  also have "\<dots> = filter (\<lambda>x. f x = f k) (sort_key f xs @ ys)" by (rule sort_key_stable)
  also have "\<dots> = filter (\<lambda>x. f x = f k) (sort_key f xs) @ filter (\<lambda>x. f x = f k) ys" by simp
  also have "\<dots> = filter (\<lambda>x. f x = f k) xs @ filter (\<lambda>x. f x = f k) ys"
    by (simp add: sort_key_stable)
  also have "\<dots> = filter (\<lambda>x. f x = f k) (xs @ ys)" by simp
  also have "\<dots> = filter (\<lambda>x. f k = f x) (xs @ ys)"
    by (rule filter_cong) auto
  finally show "filter (\<lambda>x. f k = f x) (sort_key f (sort_key f xs @ ys))
      = filter (\<lambda>x. f k = f x) (xs @ ys)" .
qed

lemma order_or_default_stored [simp]:
  "order_or_default (t\<lparr>order := Some (order_or_default t)\<rparr>) = order_or_default t"
  by (simp add: order_or_default_def)

lemma list_ex_sortTabs [simp]: "list_ex P (sortTabs xs) = list_ex P xs"
  by (simp add: list_ex_iff)

lemma run_tabs_arrivals:
  "list_all (\<lambda>t. comparable (order_or_default t)) acc \<Longrightarrow> comparable_orders cs \<Longrightarrow>
     run_tabs cs (sortTabs acc) = sortTabs (arrivals cs acc)
     \<and> list_all (\<lambda>t. comparable (order_or_default t)) (arrivals cs acc)"
proof (induction cs arbitrary: acc)
  case Nil
  then show ?case by simp
next
  case (Cons c cs)
  from Cons.prems have cs: "comparable_orders cs" by (simp add: comparable_orders_def)
  show ?case
  proof (cases c)
    case (RegisterTab t)
    with Cons.prems have t: "comparable (order_or_default t)"
      by (simp add: comparable_orders_def)
    show ?thesis
    proof (cases "list_ex (\<lambda>tab. id_tab tab = id_tab t) acc")
      case True
      with RegisterTab Cons.IH [OF Cons.prems(1) cs] show ?thesis
        by (simp add: registerTab_def)
    next
      case False
      let ?t = "t\<lparr>order := Some (order_or_default t)\<rparr>"
      have all: "list_all (\<lambda>t. comparable (order_or_default t)) (acc @ [?t])"
        using Cons.prems(1) t by simp
      have all': "list_all (\<lambda>t. comparable (order_or_default t)) (sortTabs acc @ [?t])"
        using Cons.prems(1) t by (simp add: list_all_iff)
      have a: "sortTabs acc = sort_key order_key acc"
        by (rule array_sort_sort_key [OF Cons.prems(1)])
      have "sortTabs (sortTabs acc @ [?t]) = sort_key order_key (sortTabs acc @ [?t])"
        by (rule array_sort_sort_key [OF all'])
      also have "\<dots> = sort_key order_key (sort_key order_key acc @ [?t])"
        by (simp only: a)
      also have "\<dots> = sort_key order_key (acc @ [?t])"
        by (rule sort_key_append_sorted)
      also have "\<dots> = sortTabs (acc @ [?t])"
        by (rule array_sort_sort_key [OF all, symmetric])
      finally have "sortTabs (sortTabs acc @ [?t]) = sortTabs (acc @ [?t])" .
      with False RegisterTab Cons.IH [OF all cs] show ?thesis
        by (simp add: registerTab_def Let_def)
    qed
  next
    case (SetTabs ts)
    with Cons.prems have "list_all (\<lambda>t. comparable (order_or_default t)) ts"
      by (simp add: comparable_orders_def)
    from Cons.IH [OF this cs] SetTabs show ?thesis by (simp add: set_tabs_def)
  qed
qed

lemma sorted_by_order_sort_key:
  assumes "list_all (\<lambda>t. comparable (order_or_default t)) xs"
  shows "sorted_by_order (sort_key order_key xs)"
proof -
  have "sorted_wrt (\<lambda>a b. order_key a \<le> order_key b) (sort_key order_key xs)"
    using sorted_sort_key [of order_key xs] by (simp add: sorted_map)
  then show ?thesis
    unfolding sorted_by_order_def
  proof (rule sorted_wrt_mono_rel [rotated])
    fix a b
    assume "a \<in> set (sort_key order_key xs)" "b \<in> set (sort_key order_key xs)"
      "order_key a \<le> order_key b"
    with assms show "js_le (order_or_default a) (order_or_default b)"
      by (simp add: list_all_iff order_key_def rank_le)
  qed
qed

text \<open>
  C8, as amended. As long as no entry handed to \<^verbatim>\<open>registerTab\<close> or \<^verbatim>\<open>set\<close> has the order
  \<^verbatim>\<open>NaN\<close>, the registry, after any history of such calls from the empty registry, reads
  back sorted by order ascending, an absent order counting as 100, and entries of equal
  order appear in the order in which they came in.
\<close>

theorem tabs_sorted_and_stable:
  "comparable_orders cs \<Longrightarrow>
     sorted_by_order (run_tabs cs [])
     \<and> (\<forall>k. filter (\<lambda>t. order_or_default t = k) (run_tabs cs [])
            = filter (\<lambda>t. order_or_default t = k) (arrivals cs []))"
proof -
  assume cs: "comparable_orders cs"
  have "sortTabs [] = []" by (simp add: sortTabs_def array_sort_def)
  with run_tabs_arrivals [of "[]" cs] cs
  have run: "run_tabs cs [] = sortTabs (arrivals cs [])"
    and all: "list_all (\<lambda>t. comparable (order_or_default t)) (arrivals cs [])"
    by simp_all
  have eq: "run_tabs cs [] = sort_key order_key (arrivals cs [])"
    using run array_sort_sort_key [OF all] by simp
  have "\<And>k. filter (\<lambda>t. order_or_default t = k) (sort_key order_key (arrivals cs []))
      = filter (\<lambda>t. order_or_default t = k) (arrivals cs [])"
    using sort_key_stable [of order_key "rank k" "arrivals cs []" for k]
    by (simp add: order_key_def rank_inj)
  with sorted_by_order_sort_key [OF all] show ?thesis by (simp add: eq)
qed

lemma doubles: "is_double 10" "is_double 20" "is_double 30" "is_double 100"
  by (simp_all add: is_double_def fl_eval)

lemma history_comparable: "comparable_orders history_30_10_20"
  by (simp add: comparable_orders_def history_30_10_20_def tab_with_def order_or_default_def
      comparable_def doubles)

lemma history_arrivals:
  "arrivals history_30_10_20 [] =
     [tab_with ''thirty'' (Some (Num 30)), tab_with ''default'' (Some (Num 100)),
      tab_with ''ten'' (Some (Num 10)), tab_with ''hundred'' (Some (Num 100)),
      tab_with ''twenty'' (Some (Num 20))]"
  by (simp add: history_30_10_20_def tab_with_def order_or_default_def)

lemma history_read_back:
  "map id_tab (run_tabs history_30_10_20 [])
   = [''ten'', ''twenty'', ''thirty'', ''default'', ''hundred'']"
proof -
  have "list_all (\<lambda>t. comparable (order_or_default t)) []" by simp
  from run_tabs_arrivals [OF this history_comparable]
  have "run_tabs history_30_10_20 (sortTabs []) = sortTabs (arrivals history_30_10_20 [])"
    and "list_all (\<lambda>t. comparable (order_or_default t)) (arrivals history_30_10_20 [])"
    by simp_all
  moreover have "sortTabs [] = []" by (simp add: sortTabs_def array_sort_def)
  ultimately have "run_tabs history_30_10_20 [] = sort_key order_key (arrivals history_30_10_20 [])"
    by (simp add: array_sort_sort_key)
  then show ?thesis
    by (simp add: history_arrivals order_key_def order_or_default_def tab_with_def)
qed

theorem tabs_sorted_and_stable_witness:
  "comparable_orders history_30_10_20
   \<and> sorted_by_order (run_tabs history_30_10_20 [])
   \<and> filter (\<lambda>t. order_or_default t = Num 100) (run_tabs history_30_10_20 [])
      = [tab_with ''default'' (Some (Num 100)), tab_with ''hundred'' (Some (Num 100))]
   \<and> map id_tab (run_tabs history_30_10_20 [])
      = [''ten'', ''twenty'', ''thirty'', ''default'', ''hundred'']"
  using tabs_sorted_and_stable [OF history_comparable] history_comparable history_read_back
  by (simp add: history_arrivals) (simp add: tab_with_def order_or_default_def)

theorem tabs_sorted_with_nan_counterexample:
  "map order_or_default (run_tabs history_nan []) = [Num 2, NaN, Num 1]
   \<and> \<not> sorted_by_order (run_tabs history_nan [])"
  by (simp add: history_nan_def registerTab_def sortTabs_def array_sort_def tab_with_def
      order_or_default_def js_sub_def js_gt_def sorted_by_order_def js_le_def)

section \<open>The checks of the validator\<close>

lemma bad_total_iff: "bad_total v \<longleftrightarrow> \<not> positive_finite v"
  by (cases v; simp add: positive_finite_def)
    (rename_tac n, case_tac n, auto simp: js_le_def js_gt_def)

lemma bad_size_iff: "bad_size v \<longleftrightarrow> \<not> nonneg_finite v"
  by (cases v; simp add: nonneg_finite_def)
    (rename_tac n, case_tac n, auto simp: js_le_def)

lemma bad_date_iff: "bad_date v \<longleftrightarrow> \<not> valid_date v"
  by (cases v; simp add: valid_date_def)
    (rename_tac t, case_tac t, auto simp: isNaN_def)

lemma used_exceeds_total_iff:
  "used_exceeds_total (get_prop d ''totalStorage'') (get_prop d ''usedStorage'')
     \<longleftrightarrow> used_greater_than_total d"
  by (cases "get_prop d ''totalStorage''"; cases "get_prop d ''usedStorage''")
    (simp_all add: used_greater_than_total_def)

text \<open>The sum of the validator is the rounded type-sum.\<close>

lemma storageByTypeSum_rounded_aux:
  "foldl (\<lambda>sum val. js_add sum (if typeof val = ''number'' then as_number val else Num 0)) a
     (map snd ps)
   = foldl js_add a (map (\<lambda>(k, x). case x of JNumber n \<Rightarrow> n | _ \<Rightarrow> Num 0) ps)"
proof (induction ps arbitrary: a)
  case Nil
  show ?case by simp
next
  case (Cons p ps)
  obtain k x where p: "p = (k, x)" by (cases p)
  show ?case by (cases x) (simp_all add: p Cons)
qed

lemma storageByTypeSum_rounded:
  "storageByTypeSum (map snd (own_entries v)) = rounded_type_sum v"
  unfolding storageByTypeSum_def rounded_type_sum_def by (rule storageByTypeSum_rounded_aux)

lemma sum_exceeds_used_iff:
  "has_entries (get_prop d ''storageByType'')
     \<and> sum_exceeds_used (get_prop d ''usedStorage'')
         (storageByTypeSum (map snd (own_entries (get_prop d ''storageByType''))))
     \<longleftrightarrow> type_sum_greater_than_used d"
  by (cases "get_prop d ''usedStorage''")
    (simp_all add: type_sum_greater_than_used_def storageByTypeSum_rounded)

lemma value_errors_bad_keys:
  "value_errors ps = map value_message (map fst (filter (\<lambda>(k, x). \<not> nonneg_finite x) ps))"
  by (induction ps) (auto simp: bad_size_iff)

text \<open>The messages of the validator are those of the failing checks.\<close>

lemma failing_checks_hard_errors: "failing_checks d = hard_errors d"
proof (cases "has_entries (get_prop d ''storageByType'')")
  case True
  then have "type_sum_greater_than_used d
      = sum_exceeds_used (get_prop d ''usedStorage'')
          (storageByTypeSum (map snd (own_entries (get_prop d ''storageByType''))))"
    using sum_exceeds_used_iff [of d] by simp
  with True show ?thesis
    unfolding failing_checks_def hard_errors_def
    by (simp add: bad_total_iff bad_size_iff bad_date_iff used_exceeds_total_iff is_mapping_def
        has_entries_def bad_keys_def value_errors_bad_keys value_message_def)
next
  case False
  then have "\<not> type_sum_greater_than_used d" by (simp add: type_sum_greater_than_used_def)
  with False show ?thesis
    unfolding failing_checks_def hard_errors_def
    by (auto simp: bad_total_iff bad_size_iff bad_date_iff used_exceeds_total_iff is_mapping_def
        has_entries_def bad_keys_def)
qed

lemma failing_checks_empty:
  "has_entries d \<Longrightarrow> failing_checks d = [] \<longleftrightarrow> passes_hard_checks d"
  by (auto simp: failing_checks_def passes_hard_checks_def)

text \<open>No message occurs twice.\<close>

lemma in_value_errors:
  "x \<in> set (value_errors ps)
     \<longleftrightarrow> (\<exists>k v. (k, v) \<in> set ps \<and> \<not> nonneg_finite v \<and> x = value_message k)"
proof (induction ps)
  case Nil
  show ?case by simp
next
  case (Cons p ps)
  obtain k v where p: "p = (k, v)" by (cases p)
  show ?case
  proof (cases "nonneg_finite v")
    case True
    with Cons p show ?thesis by (auto simp: bad_size_iff)
  next
    case False
    with Cons p show ?thesis by (auto simp: bad_size_iff)
  qed
qed

lemma value_message_inj: "value_message k = value_message l \<longleftrightarrow> k = l"
  by (simp add: value_message_def)

lemma value_message_other:
  "value_message k \<noteq> ''totalStorage must be a positive number''"
  "value_message k \<noteq> ''usedStorage must be a non-negative number''"
  "value_message k \<noteq> ''usedStorage cannot exceed totalStorage''"
  "value_message k \<noteq> ''files must be an array''"
  "value_message k \<noteq> ''storageByType must be an object''"
  "value_message k \<noteq> ''Sum of storageByType cannot exceed usedStorage''"
  "value_message k \<noteq> ''lastUpdated must be a valid Date object''"
  by (simp_all add: value_message_def)

lemma distinct_value_errors: "distinct (map fst ps) \<Longrightarrow> distinct (value_errors ps)"
  by (induction ps) (auto simp: in_value_errors value_message_inj rev_image_eqI)

lemma distinct_hard_errors:
  "distinct (map fst (own_entries (get_prop d ''storageByType''))) \<Longrightarrow> distinct (hard_errors d)"
  unfolding hard_errors_def
  by (simp add: distinct_value_errors in_value_errors value_message_other
      value_message_other [symmetric])

lemma filtered_count:
  "length fs - length (filter P fs) = length (filter (\<lambda>f. \<not> P f) fs)"
  using sum_length_filter_compl [of P fs] by simp

lemma filtered_some:
  "length (filter P fs) < length fs \<longleftrightarrow> filter (\<lambda>f. \<not> P f) fs \<noteq> []"
  using filtered_count [of fs P] by (metis length_greater_0_conv zero_less_diff)

text \<open>On whole numbers below \<open>2 ^ 53\<close> the rounded type-sum decides as the exact one.\<close>

lemma exact_type_sum_counted:
  "exact_type_sum v
   = exact_sum (map (\<lambda>(k, x). case x of JNumber n \<Rightarrow> n | _ \<Rightarrow> Num 0) (own_entries v))"
proof -
  have "(\<Sum>(k, x)\<leftarrow>ps. case x of JNumber (Num r) \<Rightarrow> r | _ \<Rightarrow> 0)
      = (\<Sum>v\<leftarrow>map (\<lambda>(k, x). case x of JNumber n \<Rightarrow> n | _ \<Rightarrow> Num 0) ps.
           case v of Num r \<Rightarrow> r | _ \<Rightarrow> 0)" for ps :: "(string \<times> jsval) list"
    by (induction ps) (auto split: jsval.splits jsnum.splits)
  then show ?thesis by (simp add: exact_type_sum_def exact_sum_def)
qed

lemma whole_counted:
  "whole_numbers v \<Longrightarrow>
     list_all whole (map (\<lambda>(k, x). case x of JNumber n \<Rightarrow> n | _ \<Rightarrow> Num 0) (own_entries v))"
  by (auto simp: whole_numbers_def list_all_iff split: jsval.splits)

lemma type_sum_exact:
  assumes "whole_numbers (get_prop d ''storageByType'')"
    and "get_prop d ''usedStorage'' = JNumber (Num u)" and "u < 2 ^ 53"
  shows "type_sum_greater_than_used d \<longleftrightarrow> exact_sum_greater_than_used d"
proof -
  let ?ns = "map (\<lambda>(k, x). case x of JNumber n \<Rightarrow> n | _ \<Rightarrow> Num 0)
               (own_entries (get_prop d ''storageByType''))"
  have "js_gt (sum_values ?ns) (Num u) \<longleftrightarrow> u < exact_sum ?ns"
    using whole_counted [OF assms(1)] assms(3) by (rule sum_values_exact_gt)
  then show ?thesis
    using assms(2)
    by (simp add: type_sum_greater_than_used_def exact_sum_greater_than_used_def
        rounded_type_sum_def sum_values_def exact_type_sum_counted js_gt_def)
qed

text \<open>
  C4, as amended. A value that is not an object gets the single message that it must be
  one. On an object that fails a hard check, \<^verbatim>\<open>validateStorageData\<close> returns
  \<^verbatim>\<open>isValid = false\<close> and \<^verbatim>\<open>data = null\<close>, and its messages are exactly those of the failing
  checks: one fixed message for each of the seven checks and one message naming the key
  for each value of \<^verbatim>\<open>storageByType\<close> that is not a non-negative finite number; no message
  occurs twice. The type-sum that is compared with \<^verbatim>\<open>usedStorage\<close> is the rounded one; it
  decides as the exact sum does when the values are whole numbers and \<^verbatim>\<open>usedStorage\<close> is
  below \<open>2 ^ 53\<close>. On an object that passes all checks it returns \<^verbatim>\<open>isValid = true\<close> with the
  totals, the mapping and the date of the input and the file records that pass
  \<^verbatim>\<open>validateFileItem\<close>, in order, and the message \<^verbatim>\<open>Filtered out N invalid file item(s)\<close>
  exactly when \<open>N > 0\<close> records were dropped.
\<close>

theorem validateStorageData_checks:
  "(\<not> has_entries d \<longrightarrow>
      validateStorageData d
      = \<lparr>isValid = False, data = None, errors = [''Storage data must be an object'']\<rparr>)
   \<and> (has_entries d \<and> \<not> passes_hard_checks d \<longrightarrow>
        validateStorageData d = \<lparr>isValid = False, data = None, errors = failing_checks d\<rparr>
        \<and> failing_checks d \<noteq> []
        \<and> (distinct (map fst (own_entries (get_prop d ''storageByType'')))
             \<longrightarrow> distinct (failing_checks d)))
   \<and> (passes_hard_checks d \<longrightarrow>
        validateStorageData d
        = \<lparr>isValid = True,
           data = Some
             \<lparr>totalStorage = as_number (get_prop d ''totalStorage''),
              usedStorage = as_number (get_prop d ''usedStorage''),
              files = map as_FileItem (filter validateFileItem (as_array (get_prop d ''files''))),
              storageByType =
                map (\<lambda>(k, v). (k, as_number v)) (own_entries (get_prop d ''storageByType'')),
              lastUpdated = as_date (get_prop d ''lastUpdated'')\<rparr>,
           errors =
             (if 0 < length (filter (\<lambda>f. \<not> validateFileItem f) (as_array (get_prop d ''files'')))
              then [''Filtered out ''
                    @ show_nat (length (filter (\<lambda>f. \<not> validateFileItem f)
                                  (as_array (get_prop d ''files''))))
                    @ '' invalid file item(s)'']
              else [])\<rparr>)
   \<and> (whole_numbers (get_prop d ''storageByType'')
        \<and> get_prop d ''usedStorage'' = JNumber (Num u) \<and> u < 2 ^ 53 \<longrightarrow>
        (type_sum_greater_than_used d \<longleftrightarrow> exact_sum_greater_than_used d))"
proof (intro conjI impI)
  assume "\<not> has_entries d"
  then show "validateStorageData d
      = \<lparr>isValid = False, data = None, errors = [''Storage data must be an object'']\<rparr>"
    by (simp add: validateStorageData_def has_entries_def)
next
  assume "passes_hard_checks d"
  then have h: "has_entries d" "hard_errors d = []"
    using failing_checks_empty [of d]
    by (simp_all add: passes_hard_checks_def failing_checks_hard_errors)
  then show "validateStorageData d
        = \<lparr>isValid = True,
           data = Some
             \<lparr>totalStorage = as_number (get_prop d ''totalStorage''),
              usedStorage = as_number (get_prop d ''usedStorage''),
              files = map as_FileItem (filter validateFileItem (as_array (get_prop d ''files''))),
              storageByType =
                map (\<lambda>(k, v). (k, as_number v)) (own_entries (get_prop d ''storageByType'')),
              lastUpdated = as_date (get_prop d ''lastUpdated'')\<rparr>,
           errors =
             (if 0 < length (filter (\<lambda>f. \<not> validateFileItem f) (as_array (get_prop d ''files'')))
              then [''Filtered out ''
                    @ show_nat (length (filter (\<lambda>f. \<not> validateFileItem f)
                                  (as_array (get_prop d ''files''))))
                    @ '' invalid file item(s)'']
              else [])\<rparr>"
    by (simp add: validateStorageData_def has_entries_def Let_def filtered_count
        filtered_some filtered_message_def)
next
  assume a: "has_entries d \<and> \<not> passes_hard_checks d"
  then have ne: "hard_errors d \<noteq> []"
    using failing_checks_empty [of d] by (simp add: failing_checks_hard_errors)
  with a show "validateStorageData d
      = \<lparr>isValid = False, data = None, errors = failing_checks d\<rparr>"
    by (simp add: validateStorageData_def has_entries_def failing_checks_hard_errors)
  from ne show "failing_checks d \<noteq> []" by (simp add: failing_checks_hard_errors)
  assume "distinct (map fst (own_entries (get_prop d ''storageByType'')))"
  then show "distinct (failing_checks d)"
    unfolding failing_checks_hard_errors by (rule distinct_hard_errors)
next
  assume "whole_numbers (get_prop d ''storageByType'')
      \<and> get_prop d ''usedStorage'' = JNumber (Num u) \<and> u < 2 ^ 53"
  then show "type_sum_greater_than_used d \<longleftrightarrow> exact_sum_greater_than_used d"
    using type_sum_exact [of d u] by blast
qed

lemma raw_three_files_props:
  "get_prop raw_three_files ''totalStorage'' = JNumber (Num 1000)"
  "get_prop raw_three_files ''usedStorage'' = JNumber (Num 500)"
  "get_prop raw_three_files ''files''
     = JArray [js_of_FileItem file_a, js_of_FileItem file_no_id, js_of_FileItem file_c]"
  "get_prop raw_three_files ''storageByType'' = JObject []"
  "get_prop raw_three_files ''lastUpdated'' = JDate (DateAt 0)"
  "has_entries raw_three_files"
  by (simp_all add: raw_three_files_def has_entries_def)

lemma raw_inconsistent_props:
  "get_prop raw_inconsistent ''totalStorage'' = JNumber (Num 100)"
  "get_prop raw_inconsistent ''usedStorage'' = JNumber (Num 500)"
  "get_prop raw_inconsistent ''files'' = JArray []"
  "get_prop raw_inconsistent ''storageByType'' = JObject [(''a'', JNumber NaN)]"
  "get_prop raw_inconsistent ''lastUpdated'' = JDate InvalidDate"
  "has_entries raw_inconsistent"
  by (simp_all add: raw_inconsistent_def has_entries_def)

lemma raw_overfull_props:
  "get_prop raw_overfull ''totalStorage'' = JNumber (Num 1000)"
  "get_prop raw_overfull ''usedStorage'' = JNumber (Num 500)"
  "get_prop raw_overfull ''files'' = JArray []"
  "get_prop raw_overfull ''storageByType''
     = JObject [(''a'', JNumber (Num 300)), (''b'', JNumber (Num 300))]"
  "get_prop raw_overfull ''lastUpdated'' = JDate (DateAt 0)"
  "has_entries raw_overfull"
  by (simp_all add: raw_overfull_def has_entries_def)

lemma file_no_id_invalid: "\<not> validateFileItem (js_of_FileItem file_no_id)"
  by (simp add: validateFileItem_def get_prop_js_of_FileItem file_no_id_def trim_def)

lemma has_entries_object: "has_entries (JObject ps)"
  by (simp add: has_entries_def)

lemma raw_three_files_passes: "passes_hard_checks raw_three_files"
  by (simp add: passes_hard_checks_def raw_three_files_props positive_finite_def
      nonneg_finite_def used_greater_than_total_def is_mapping_def has_entries_object bad_keys_def
      type_sum_greater_than_used_def rounded_type_sum_def valid_date_def js_gt_def js_le_def)

lemma raw_inconsistent_fails: "\<not> passes_hard_checks raw_inconsistent"
  by (simp add: passes_hard_checks_def raw_inconsistent_props valid_date_def)

lemma raw_inconsistent_messages:
  "failing_checks raw_inconsistent
   = [''usedStorage cannot exceed totalStorage'',
      ''storageByType['' @ [CHR 0x27] @ ''a'' @ [CHR 0x27] @ ''] must be a non-negative number'',
      ''lastUpdated must be a valid Date object'']"
  by (simp add: failing_checks_def raw_inconsistent_props positive_finite_def nonneg_finite_def
      used_greater_than_total_def is_mapping_def has_entries_object bad_keys_def
      type_sum_greater_than_used_def rounded_type_sum_def valid_date_def js_gt_def js_le_def)

lemma raw_overfull_messages:
  "failing_checks raw_overfull = [''Sum of storageByType cannot exceed usedStorage'']"
  by (simp add: failing_checks_def raw_overfull_props positive_finite_def nonneg_finite_def
      used_greater_than_total_def is_mapping_def has_entries_object bad_keys_def
      type_sum_greater_than_used_def rounded_type_sum_def valid_date_def js_gt_def js_le_def
      fl_eval)

lemma raw_overfull_whole: "whole_numbers (get_prop raw_overfull ''storageByType'')"
  by (simp add: raw_overfull_props whole_numbers_def is_mapping_def has_entries_object whole_def
      js_le_def)

lemma raw_overfull_exact: "exact_sum_greater_than_used raw_overfull"
  by (simp add: exact_sum_greater_than_used_def raw_overfull_props has_entries_object
      exact_type_sum_def js_gt_def)

theorem validateStorageData_checks_witness:
  "validateStorageData JNull
   = \<lparr>isValid = False, data = None, errors = [''Storage data must be an object'']\<rparr>
   \<and> validateStorageData raw_inconsistent
     = \<lparr>isValid = False, data = None,
        errors =
          [''usedStorage cannot exceed totalStorage'',
           ''storageByType['' @ [CHR 0x27] @ ''a'' @ [CHR 0x27] @ ''] must be a non-negative number'',
           ''lastUpdated must be a valid Date object'']\<rparr>
   \<and> distinct (map fst (own_entries (get_prop raw_inconsistent ''storageByType'')))
   \<and> distinct (errors (validateStorageData raw_inconsistent))
   \<and> validateStorageData raw_three_files
     = \<lparr>isValid = True,
        data = Some \<lparr>totalStorage = Num 1000, usedStorage = Num 500, files = [file_a, file_c],
                      storageByType = [], lastUpdated = DateAt 0\<rparr>,
        errors = [''Filtered out 1 invalid file item(s)'']\<rparr>
   \<and> exact_sum_greater_than_used raw_overfull
   \<and> type_sum_greater_than_used raw_overfull
   \<and> validateStorageData raw_overfull
     = \<lparr>isValid = False, data = None,
        errors = [''Sum of storageByType cannot exceed usedStorage'']\<rparr>"
proof -
  have v: "validateFileItem (js_of_FileItem file_a)" "validateFileItem (js_of_FileItem file_c)"
    using valid_examples by (simp_all add: valid_file_def)
  have 1: "validateStorageData JNull
      = \<lparr>isValid = False, data = None, errors = [''Storage data must be an object'']\<rparr>"
    using validateStorageData_checks [of JNull] by (simp add: has_entries_def)
  have k: "distinct (map fst (own_entries (get_prop raw_inconsistent ''storageByType'')))"
    by (simp add: raw_inconsistent_props)
  have 2: "validateStorageData raw_inconsistent
      = \<lparr>isValid = False, data = None, errors = failing_checks raw_inconsistent\<rparr>"
    using validateStorageData_checks [of raw_inconsistent] raw_inconsistent_fails
      raw_inconsistent_props(6) by blast
  have "distinct (failing_checks raw_inconsistent)"
    using validateStorageData_checks [of raw_inconsistent] raw_inconsistent_fails
      raw_inconsistent_props(6) k by blast
  with 2 have d: "distinct (errors (validateStorageData raw_inconsistent))" by simp
  have "validateStorageData raw_three_files
        = \<lparr>isValid = True,
           data = Some
             \<lparr>totalStorage = as_number (get_prop raw_three_files ''totalStorage''),
              usedStorage = as_number (get_prop raw_three_files ''usedStorage''),
              files = map as_FileItem
                        (filter validateFileItem (as_array (get_prop raw_three_files ''files''))),
              storageByType =
                map (\<lambda>(k, v). (k, as_number v))
                  (own_entries (get_prop raw_three_files ''storageByType'')),
              lastUpdated = as_date (get_prop raw_three_files ''lastUpdated'')\<rparr>,
           errors =
             (if 0 < length (filter (\<lambda>f. \<not> validateFileItem f)
                               (as_array (get_prop raw_three_files ''files'')))
              then [''Filtered out ''
                    @ show_nat (length (filter (\<lambda>f. \<not> validateFileItem f)
                                  (as_array (get_prop raw_three_files ''files''))))
                    @ '' invalid file item(s)'']
              else [])\<rparr>"
    using validateStorageData_checks [of raw_three_files] raw_three_files_passes by blast
  then have 3: "validateStorageData raw_three_files
     = \<lparr>isValid = True,
        data = Some \<lparr>totalStorage = Num 1000, usedStorage = Num 500, files = [file_a, file_c],
                      storageByType = [], lastUpdated = DateAt 0\<rparr>,
        errors = [''Filtered out 1 invalid file item(s)'']\<rparr>"
    by (simp add: raw_three_files_props v file_no_id_invalid show_nat.simps)
  have "(500::real) < 2 ^ 53" by simp
  with validateStorageData_checks [of raw_overfull 500] raw_overfull_whole raw_overfull_props(2)
  have "type_sum_greater_than_used raw_overfull \<longleftrightarrow> exact_sum_greater_than_used raw_overfull"
    by blast
  with raw_overfull_exact have 4: "type_sum_greater_than_used raw_overfull" by simp
  then have "\<not> passes_hard_checks raw_overfull" by (simp add: passes_hard_checks_def)
  with validateStorageData_checks [of raw_overfull] raw_overfull_props(6)
  have 5: "validateStorageData raw_overfull
      = \<lparr>isValid = False, data = None, errors = failing_checks raw_overfull\<rparr>"
    by blast
  show ?thesis
    using 1 2 3 4 5 d k raw_overfull_exact
    by (simp add: raw_inconsistent_messages raw_overfull_messages)
qed

text \<open>
  With the three types of \<open>2 ^ 53\<close>, 1 and 1 bytes and \<open>2 ^ 53\<close> bytes used, the values add up
  to two bytes more than \<^verbatim>\<open>usedStorage\<close>, but the validator, which adds them in this order
  in double arithmetic, finds a sum of \<open>2 ^ 53\<close> and accepts the snapshot. With the two
  small values first it finds \<open>2 ^ 53 + 2\<close> and refuses it. Below \<open>2 ^ 53\<close> the same happens
  with values that are not whole numbers: 1 and \<open>2 ^ - 53\<close> add up to more than the one
  byte used, and the validator finds a sum of 1.
\<close>

lemma raw_absorbing_typed:
  "raw_absorbing = js_of_StorageData absorbing"
  "raw_absorbing_reordered
   = js_of_StorageData
       (absorbing\<lparr>storageByType := [(''b'', Num 1), (''c'', Num 1), (''a'', Num 9007199254740992)]\<rparr>)"
  by (simp_all add: raw_absorbing_def raw_absorbing_reordered_def js_of_StorageData_def
      absorbing_def)

lemma raw_fractional_typed: "raw_fractional = js_of_StorageData fractional"
  by (simp add: raw_fractional_def js_of_StorageData_def fractional_def)

lemma reordered_sum:
  "sum_values [Num 1, Num 1, Num 9007199254740992] = Num 9007199254740994"
  by (simp add: sum_values_def fl_eval)

theorem validateStorageData_exact_sum_counterexample:
  "exact_type_sum (get_prop raw_absorbing ''storageByType'') = 9007199254740994
   \<and> get_prop raw_absorbing ''usedStorage'' = JNumber (Num 9007199254740992)
   \<and> exact_sum_greater_than_used raw_absorbing
   \<and> \<not> passes_exact_checks raw_absorbing
   \<and> validateStorageData raw_absorbing = \<lparr>isValid = True, data = Some absorbing, errors = []\<rparr>
   \<and> validateStorageData raw_absorbing_reordered
     = \<lparr>isValid = False, data = None,
        errors = [''Sum of storageByType cannot exceed usedStorage'']\<rparr>
   \<and> get_prop raw_fractional ''usedStorage'' = JNumber (Num 1)
   \<and> exact_sum_greater_than_used raw_fractional
   \<and> validateStorageData raw_fractional
     = \<lparr>isValid = True, data = Some fractional, errors = []\<rparr>"
proof (intro conjI)
  show s: "exact_type_sum (get_prop raw_absorbing ''storageByType'') = 9007199254740994"
    by (simp add: raw_absorbing_def exact_type_sum_def)
  show u: "get_prop raw_absorbing ''usedStorage'' = JNumber (Num 9007199254740992)"
    by (simp add: raw_absorbing_def)
  have "has_entries (get_prop raw_absorbing ''storageByType'')"
    by (simp add: raw_absorbing_def has_entries_def)
  then show e: "exact_sum_greater_than_used raw_absorbing"
    by (simp add: exact_sum_greater_than_used_def s u js_gt_def)
  then show "\<not> passes_exact_checks raw_absorbing" by (simp add: passes_exact_checks_def)
  have "hard_checks absorbing"
    by (simp add: hard_checks_def absorbing_def absorbing_sum js_gt_def js_le_def isNaN_def)
  then show "validateStorageData raw_absorbing
      = \<lparr>isValid = True, data = Some absorbing, errors = []\<rparr>"
    unfolding raw_absorbing_typed by (simp add: validateStorageData_typed) (simp add: absorbing_def)
  show "validateStorageData raw_absorbing_reordered
     = \<lparr>isValid = False, data = None,
        errors = [''Sum of storageByType cannot exceed usedStorage'']\<rparr>"
    unfolding raw_absorbing_typed
    by (simp add: validateStorageData_typed hard_checks_def hard_errors_typed absorbing_def
        reordered_sum js_gt_def js_le_def isNaN_def)
  show "get_prop raw_fractional ''usedStorage'' = JNumber (Num 1)"
    by (simp add: raw_fractional_def)
  show "exact_sum_greater_than_used raw_fractional"
    by (simp add: exact_sum_greater_than_used_def raw_fractional_def has_entries_def
        exact_type_sum_def js_gt_def)
  have "hard_checks fractional"
    by (simp add: hard_checks_def fractional_def fractional_sum js_gt_def js_le_def isNaN_def)
  then show "validateStorageData raw_fractional
      = \<lparr>isValid = True, data = Some fractional, errors = []\<rparr>"
    unfolding raw_fractional_typed
    by (simp add: validateStorageData_typed) (simp add: fractional_def)
qed

end
